theory Spec2Isabelle
  imports Main
begin

section \<open>Values\<close>

text \<open>
  The program handles the values that \<^verbatim>\<open>response.json()\<close> produces: \<^verbatim>\<open>None\<close>,
  booleans, integers, strings, lists and dictionaries with string keys. A dictionary is
  an association list in insertion order; a real Python dictionary has pairwise distinct
  keys (\<open>wf_json\<close> below). A string is a list of characters, each character a code point
  in the range 0..255. \<^verbatim>\<open>response.json()\<close> can also produce floating-point numbers
  (\<^verbatim>\<open>NaN\<close> and the infinities among them) and characters above 255: they are outside
  this model, and nothing below is stated for data that holds them.
\<close>

datatype json =
    JNull
  | JBool bool
  | JInt int
  | JStr string
  | JArr "json list"
  | JObj "(string \<times> json) list"

fun wf_json :: "json \<Rightarrow> bool" where
  "wf_json (JArr xs) = list_all wf_json xs"
| "wf_json (JObj kvs) = (distinct (map fst kvs) \<and> list_all (\<lambda>kv. wf_json (snd kv)) kvs)"
| "wf_json _ = True"

text \<open>The exceptions that can leave a function of the program.\<close>

datatype py_error =
    KeyError string
  | TypeError
  | AttributeError
  | ValueError
  | JSONDecodeError
  | OSError
  | Uncaught string

abbreviation LF :: char where "LF \<equiv> CHR 0x0A"
abbreviation CR :: char where "CR \<equiv> CHR 0x0D"
abbreviation DQ :: char where "DQ \<equiv> CHR 0x22"
abbreviation SQ :: char where "SQ \<equiv> CHR 0x27"
abbreviation BSL :: char where "BSL \<equiv> CHR 0x5C"

section \<open>Python built-ins used by the program\<close>

text \<open>Truth value testing, as \<^verbatim>\<open>if tags:\<close> performs it.\<close>

fun truthy :: "json \<Rightarrow> bool" where
  "truthy JNull = False"
| "truthy (JBool b) = b"
| "truthy (JInt i) = (i \<noteq> 0)"
| "truthy (JStr s) = (s \<noteq> [])"
| "truthy (JArr xs) = (xs \<noteq> [])"
| "truthy (JObj kvs) = (kvs \<noteq> [])"

text \<open>\<^verbatim>\<open>d[k]\<close>: a key lookup on a dictionary raises \<^verbatim>\<open>KeyError\<close> for a missing key;
  on any other value of the model it raises \<^verbatim>\<open>TypeError\<close> (a string key is no index
  of a list or string, and the other values are not subscriptable).\<close>

fun subscript :: "json \<Rightarrow> string \<Rightarrow> py_error + json" where
  "subscript (JObj kvs) k = (case map_of kvs k of None \<Rightarrow> Inl (KeyError k) | Some v \<Rightarrow> Inr v)"
| "subscript _ k = Inl TypeError"

text \<open>\<^verbatim>\<open>d.get(k, default)\<close>: only a dictionary has the method.\<close>

fun dict_get :: "json \<Rightarrow> string \<Rightarrow> json \<Rightarrow> py_error + json" where
  "dict_get (JObj kvs) k dflt = (case map_of kvs k of None \<Rightarrow> Inr dflt | Some v \<Rightarrow> Inr v)"
| "dict_get _ k dflt = Inl AttributeError"

text \<open>\<^verbatim>\<open>for item in data\<close>: a list yields its elements, a dictionary its keys, a
  string its characters; the other values are not iterable.\<close>

fun py_iter :: "json \<Rightarrow> py_error + json list" where
  "py_iter (JArr xs) = Inr xs"
| "py_iter (JObj kvs) = Inr (map (\<lambda>kv. JStr (fst kv)) kvs)"
| "py_iter (JStr s) = Inr (map (\<lambda>c. JStr [c]) s)"
| "py_iter _ = Inl TypeError"

subsection \<open>Decimal and hexadecimal digits\<close>

definition digit_char :: "nat \<Rightarrow> char" where
  "digit_char d = char_of (48 + d)"

fun str_nat :: "nat \<Rightarrow> string" where
  "str_nat n = (if n < 10 then [digit_char n] else str_nat (n div 10) @ [digit_char (n mod 10)])"

declare str_nat.simps [simp del]

definition str_int :: "int \<Rightarrow> string" where
  "str_int i = (if i < 0 then CHR ''-'' # str_nat (nat (- i)) else str_nat (nat i))"

definition hex_digit :: "nat \<Rightarrow> char" where
  "hex_digit d = (if d < 10 then char_of (48 + d) else char_of (87 + d))"

definition hex2 :: "char \<Rightarrow> string" where
  "hex2 c = [hex_digit (of_char c div 16), hex_digit (of_char c mod 16)]"

subsection \<open>\<^verbatim>\<open>repr\<close> and \<^verbatim>\<open>str\<close>\<close>

text \<open>
  \<^verbatim>\<open>repr\<close> of a string picks the quote (a double quote only when the string has a
  single quote and no double quote), escapes the quote, the backslash, tab, newline and
  carriage return, and writes every other non-printable character as \<^verbatim>\<open>\xNN\<close>. In
  the range 0..255 the non-printable characters are those below 32, 127 to 160, and 173.
\<close>

definition repr_quote :: "string \<Rightarrow> char" where
  "repr_quote s = (if SQ \<in> set s \<and> DQ \<notin> set s then DQ else SQ)"

definition printable :: "char \<Rightarrow> bool" where
  "printable c = (let n = (of_char c :: nat) in 32 \<le> n \<and> n < 127 \<or> 160 < n \<and> n \<noteq> 173)"

definition repr_char :: "char \<Rightarrow> char \<Rightarrow> string" where
  "repr_char q c =
     (if c = q \<or> c = BSL then [BSL, c]
      else if c = CHR 0x09 then [BSL, CHR ''t'']
      else if c = LF then [BSL, CHR ''n'']
      else if c = CR then [BSL, CHR ''r'']
      else if printable c then [c]
      else [BSL, CHR ''x''] @ hex2 c)"

definition repr_str :: "string \<Rightarrow> string" where
  "repr_str s = (let q = repr_quote s in q # concat (map (repr_char q) s) @ [q])"

text \<open>\<^verbatim>\<open>sep.join(parts)\<close>.\<close>

fun join :: "string \<Rightarrow> string list \<Rightarrow> string" where
  "join sep [] = []"
| "join sep [x] = x"
| "join sep (x # y # ys) = x @ sep @ join sep (y # ys)"

fun py_repr :: "json \<Rightarrow> string" where
  "py_repr JNull = ''None''"
| "py_repr (JBool b) = (if b then ''True'' else ''False'')"
| "py_repr (JInt i) = str_int i"
| "py_repr (JStr s) = repr_str s"
| "py_repr (JArr xs) = ''['' @ join '', '' (map py_repr xs) @ '']''"
| "py_repr (JObj kvs) =
     ''{'' @ join '', '' (map (\<lambda>kv. repr_str (fst kv) @ '': '' @ py_repr (snd kv)) kvs) @ ''}''"

text \<open>\<^verbatim>\<open>str(v)\<close>, which is also what an f-string field \<^verbatim>\<open>{v}\<close> inserts.\<close>

definition py_str :: "json \<Rightarrow> string" where
  "py_str v = (case v of JStr s \<Rightarrow> s | _ \<Rightarrow> py_repr v)"

section \<open>The \<^verbatim>\<open>json\<close> encoder\<close>

text \<open>
  \<^verbatim>\<open>json.dumps\<close> and \<^verbatim>\<open>json.dump\<close> with their defaults (\<^verbatim>\<open>ensure_ascii=True\<close>):
  inside a string the double quote, the backslash and the control characters with a short
  form are escaped with a backslash, every other character outside the range from space
  to tilde becomes \<^verbatim>\<open>\uNNNN\<close>.
\<close>

definition escape_ascii :: "char \<Rightarrow> string" where
  "escape_ascii c =
     (if c = DQ then [BSL, DQ]
      else if c = BSL then [BSL, BSL]
      else if c = LF then [BSL, CHR ''n'']
      else if c = CR then [BSL, CHR ''r'']
      else if c = CHR 0x09 then [BSL, CHR ''t'']
      else if c = CHR 0x08 then [BSL, CHR ''b'']
      else if c = CHR 0x0C then [BSL, CHR ''f'']
      else if 32 \<le> (of_char c :: nat) \<and> (of_char c :: nat) \<le> 126 then [c]
      else [BSL, CHR ''u'', CHR ''0'', CHR ''0''] @ hex2 c)"

definition encode_basestring_ascii :: "string \<Rightarrow> string" where
  "encode_basestring_ascii s = DQ # concat (map escape_ascii s) @ [DQ]"

text \<open>
  The \<^verbatim>\<open>indent\<close> argument is \<open>None\<close> or a number of spaces. Without it the item
  separator is a comma and a space and nothing is put between brackets and items; with it
  the separator is a comma, and every item starts on a line of its own, indented by
  \<^verbatim>\<open>indent\<close> spaces per nesting level. The key separator is a colon and a space.
  An empty list is \<^verbatim>\<open>[]\<close> and an empty dictionary \<^verbatim>\<open>{}\<close> in both cases.
\<close>

definition newline_indent :: "nat option \<Rightarrow> nat \<Rightarrow> string" where
  "newline_indent ind lvl = (case ind of None \<Rightarrow> [] | Some n \<Rightarrow> LF # replicate (n * lvl) CHR '' '')"

definition item_separator :: "nat option \<Rightarrow> string" where
  "item_separator ind = (case ind of None \<Rightarrow> '', '' | Some n \<Rightarrow> '','')"

fun iterencode :: "nat option \<Rightarrow> nat \<Rightarrow> json \<Rightarrow> string" where
  "iterencode ind lvl JNull = ''null''"
| "iterencode ind lvl (JBool b) = (if b then ''true'' else ''false'')"
| "iterencode ind lvl (JInt i) = str_int i"
| "iterencode ind lvl (JStr s) = encode_basestring_ascii s"
| "iterencode ind lvl (JArr xs) =
     (if xs = [] then ''[]''
      else ''['' @ newline_indent ind (Suc lvl)
           @ join (item_separator ind @ newline_indent ind (Suc lvl))
               (map (iterencode ind (Suc lvl)) xs)
           @ newline_indent ind lvl @ '']'')"
| "iterencode ind lvl (JObj kvs) =
     (if kvs = [] then ''{}''
      else ''{'' @ newline_indent ind (Suc lvl)
           @ join (item_separator ind @ newline_indent ind (Suc lvl))
               (map (\<lambda>kv. encode_basestring_ascii (fst kv) @ '': ''
                            @ iterencode ind (Suc lvl) (snd kv)) kvs)
           @ newline_indent ind lvl @ ''}'')"

definition json_dumps :: "nat option \<Rightarrow> json \<Rightarrow> string" where
  "json_dumps ind v = iterencode ind 0 v"

section \<open>The \<^verbatim>\<open>csv\<close> writer\<close>

text \<open>
  \<^verbatim>\<open>csv.DictWriter\<close> with the default dialect: comma as delimiter, double quote as
  quote character, doubled inside a quoted field, minimal quoting, and carriage return
  with line feed as line terminator. A field is \<^verbatim>\<open>None\<close> (written as nothing), a
  string, or anything else, written as \<^verbatim>\<open>str\<close> gives it. A field is quoted when
  it contains the delimiter, the quote character, a carriage return or a line feed. A row
  that would be empty (a single empty field) is written as a pair of quotes.
\<close>

definition csv_field_text :: "json \<Rightarrow> string" where
  "csv_field_text v = (case v of JNull \<Rightarrow> [] | _ \<Rightarrow> py_str v)"

definition csv_special :: "char \<Rightarrow> bool" where
  "csv_special c = (c = CHR '','' \<or> c = DQ \<or> c = CR \<or> c = LF)"

definition csv_join_append :: "string \<Rightarrow> string" where
  "csv_join_append s =
     (let body = concat (map (\<lambda>c. if c = DQ then [DQ, DQ] else [c]) s)
      in if list_ex csv_special s then DQ # body @ [DQ] else body)"

definition csv_writerow :: "json list \<Rightarrow> string" where
  "csv_writerow fields =
     (let rec = join '','' (map (\<lambda>v. csv_join_append (csv_field_text v)) fields)
      in (if fields \<noteq> [] \<and> rec = [] then [DQ, DQ] else rec) @ [CR, LF])"

text \<open>\<^verbatim>\<open>DictWriter._dict_to_list\<close> with \<^verbatim>\<open>extrasaction='raise'\<close> and
  \<^verbatim>\<open>restval=''\<close>: a key that is no field name raises \<^verbatim>\<open>ValueError\<close>, a field name
  that is no key gives the empty string.\<close>

definition dict_to_list :: "string list \<Rightarrow> (string \<times> json) list \<Rightarrow> py_error + json list" where
  "dict_to_list fieldnames rowdict =
     (if list_ex (\<lambda>kv. fst kv \<notin> set fieldnames) rowdict then Inl ValueError
      else Inr (map (\<lambda>k. case map_of rowdict k of None \<Rightarrow> JStr [] | Some v \<Rightarrow> v) fieldnames))"

definition DictWriter_writerow :: "string list \<Rightarrow> (string \<times> json) list \<Rightarrow> py_error + string" where
  "DictWriter_writerow fieldnames rowdict =
     (case dict_to_list fieldnames rowdict of Inl e \<Rightarrow> Inl e | Inr row \<Rightarrow> Inr (csv_writerow row))"

definition DictWriter_writeheader :: "string list \<Rightarrow> py_error + string" where
  "DictWriter_writeheader fieldnames =
     DictWriter_writerow fieldnames (map (\<lambda>k. (k, JStr k)) fieldnames)"

section \<open>The environment of a run\<close>

text \<open>
  A request is what \<^verbatim>\<open>requests.request\<close> is called with. The server and the
  network are a function from the request to what the call does: it raises a
  \<^verbatim>\<open>requests.exceptions.RequestException\<close> (connection refused, timeout, TLS failure,
  invalid URL) with a message, it raises some other exception, or it returns a response.
  A response carries its status code, reason phrase and URL, and what
  \<^verbatim>\<open>response.json()\<close> returns: \<open>None\<close> when the body is no JSON document and the
  call raises.
\<close>

record request =
  req_method :: string
  req_url :: string
  req_headers :: "(string \<times> string) list"
  req_data :: string
  req_verify :: bool

record response =
  status_code :: nat
  reason :: string
  resp_url :: string
  json_body :: "json option"

datatype net_outcome =
    RequestException string
  | OtherException string
  | Responds response

record env =
  net :: "request \<Rightarrow> net_outcome"
  can_open :: "string \<Rightarrow> bool"

text \<open>
  The state a run changes: the requests sent, in order; the files, by name, with their
  text; the lines printed. Opening a file for writing fails with \<^verbatim>\<open>OSError\<close> where
  \<open>can_open\<close> is false; a write to an open file does not fail. The text of a file
  is what the program writes, before the platform's encoding and newline translation.
\<close>

record world =
  sent :: "request list"
  files :: "string \<Rightarrow> string option"
  stdout :: "string list"

definition print :: "string \<Rightarrow> world \<Rightarrow> world" where
  "print line w = w\<lparr>stdout := stdout w @ [line]\<rparr>"

text \<open>
  \<^verbatim>\<open>Response.raise_for_status\<close> raises \<^verbatim>\<open>HTTPError\<close>, a \<^verbatim>\<open>RequestException\<close>,
  for the status codes 400 to 599 and for no other; the result is the message of the
  exception, if any. \<^verbatim>\<open>bool(response)\<close> is \<^verbatim>\<open>response.ok\<close>: true when
  \<^verbatim>\<open>raise_for_status\<close> does not raise.
\<close>

definition raise_for_status :: "response \<Rightarrow> string option" where
  "raise_for_status r =
     (if 400 \<le> status_code r \<and> status_code r < 500
      then Some (str_nat (status_code r) @ '' Client Error: '' @ reason r @ '' for url: '' @ resp_url r)
      else if 500 \<le> status_code r \<and> status_code r < 600
      then Some (str_nat (status_code r) @ '' Server Error: '' @ reason r @ '' for url: '' @ resp_url r)
      else None)"

definition response_ok :: "response \<Rightarrow> bool" where
  "response_ok r = (raise_for_status r = None)"

definition response_json :: "response \<Rightarrow> py_error + json" where
  "response_json r = (case json_body r of None \<Rightarrow> Inl JSONDecodeError | Some j \<Rightarrow> Inr j)"

section \<open>The program\<close>

subsection \<open>\<^verbatim>\<open>_request_call\<close>\<close>

definition mk_request :: "string \<Rightarrow> string \<Rightarrow> (string \<times> string) list \<Rightarrow> string \<Rightarrow> request" where
  "mk_request method url headers data =
     \<lparr>req_method = method, req_url = url, req_headers = headers, req_data = data,
      req_verify = False\<rparr>"

definition send :: "request \<Rightarrow> world \<Rightarrow> world" where
  "send rq w = w\<lparr>sent := sent w @ [rq]\<rparr>"

definition request_call ::
  "env \<Rightarrow> string \<Rightarrow> string \<Rightarrow> (string \<times> string) list \<Rightarrow> string \<Rightarrow> world
     \<Rightarrow> (py_error + response option) \<times> world" where
  "request_call e method url headers data w =
     (let rq = mk_request method url headers data;
          w1 = send rq w
      in case net e rq of
           RequestException msg \<Rightarrow> (Inr None, print (''Error during request: '' @ msg) w1)
         | OtherException msg \<Rightarrow> (Inl (Uncaught msg), w1)
         | Responds r \<Rightarrow>
             (case raise_for_status r of
                Some msg \<Rightarrow> (Inr None, print (''Error during request: '' @ msg) w1)
              | None \<Rightarrow> (Inr (Some r), w1)))"

subsection \<open>\<^verbatim>\<open>get_tags\<close> and \<^verbatim>\<open>get_tag_context\<close>\<close>

definition browse_url :: "string \<Rightarrow> string \<Rightarrow> string" where
  "browse_url canary api_version = canary @ ''/'' @ api_version @ ''/browseTags''"

definition context_url :: "string \<Rightarrow> string \<Rightarrow> string" where
  "context_url canary api_version = canary @ ''/'' @ api_version @ ''/getTagContext''"

definition json_headers :: "(string \<times> string) list" where
  "json_headers = [(''Content-Type'', ''application/json'')]"

text \<open>The tail both clients share: \<^verbatim>\<open>if response: return response.json().get(key, [])\<close>,
  else the empty list.\<close>

definition extract_field :: "string \<Rightarrow> response option \<Rightarrow> py_error + json" where
  "extract_field key resp =
     (case resp of
        None \<Rightarrow> Inr (JArr [])
      | Some r \<Rightarrow>
          if response_ok r
          then (case response_json r of Inl err \<Rightarrow> Inl err | Inr j \<Rightarrow> dict_get j key (JArr []))
          else Inr (JArr []))"

definition browse_payload :: "string \<Rightarrow> string \<Rightarrow> string \<Rightarrow> string" where
  "browse_payload application timezone api_token =
     json_dumps None (JObj
       [(''application'', JStr application), (''timezone'', JStr timezone),
        (''apiToken'', JStr api_token), (''path'', JStr []), (''deep'', JBool True),
        (''search'', JStr [])])"

definition get_tags ::
  "env \<Rightarrow> string \<Rightarrow> string \<Rightarrow> string \<Rightarrow> string \<Rightarrow> string \<Rightarrow> world \<Rightarrow> (py_error + json) \<times> world" where
  "get_tags e canary api_version api_token application timezone w =
     (let url = browse_url canary api_version;
          payload = browse_payload application timezone api_token
      in case request_call e ''POST'' url json_headers payload w of
           (Inl err, w1) \<Rightarrow> (Inl err, w1)
         | (Inr resp, w1) \<Rightarrow> (extract_field ''tags'' resp, w1))"

definition context_payload :: "string \<Rightarrow> json \<Rightarrow> string" where
  "context_payload api_token tags =
     json_dumps None (JObj [(''apiToken'', JStr api_token), (''tags'', tags)])"

definition get_tag_context ::
  "env \<Rightarrow> string \<Rightarrow> string \<Rightarrow> string \<Rightarrow> json \<Rightarrow> world \<Rightarrow> (py_error + json) \<times> world" where
  "get_tag_context e canary api_version api_token tags w =
     (let url = context_url canary api_version;
          payload = context_payload api_token tags
      in case request_call e ''POST'' url json_headers payload w of
           (Inl err, w1) \<Rightarrow> (Inl err, w1)
         | (Inr resp, w1) \<Rightarrow> (extract_field ''data'' resp, w1))"

subsection \<open>The formatters\<close>

text \<open>
  A formatter opens the file for writing, which creates or empties it, and writes piece
  by piece; when an exception ends it, the file keeps what was written before. A writing
  step takes the text written so far and returns the exception, if any, with the text.
\<close>

type_synonym writing = "string \<Rightarrow> py_error option \<times> string"

definition and_then :: "writing \<Rightarrow> writing \<Rightarrow> writing" where
  "and_then f g buf = (case f buf of (Some err, buf1) \<Rightarrow> (Some err, buf1) | (None, buf1) \<Rightarrow> g buf1)"

fun for_each :: "(json \<Rightarrow> writing) \<Rightarrow> json list \<Rightarrow> writing" where
  "for_each body [] buf = (None, buf)"
| "for_each body (item # rest) buf =
     (case body item buf of (Some err, buf1) \<Rightarrow> (Some err, buf1) | (None, buf1) \<Rightarrow> for_each body rest buf1)"

definition for_in :: "json \<Rightarrow> (json \<Rightarrow> writing) \<Rightarrow> writing" where
  "for_in data body buf =
     (case py_iter data of Inl err \<Rightarrow> (Some err, buf) | Inr items \<Rightarrow> for_each body items buf)"

definition write_result :: "py_error + string \<Rightarrow> writing" where
  "write_result r buf = (case r of Inl err \<Rightarrow> (Some err, buf) | Inr text \<Rightarrow> (None, buf @ text))"

definition with_open :: "env \<Rightarrow> string \<Rightarrow> writing \<Rightarrow> world \<Rightarrow> py_error option \<times> world" where
  "with_open e filename body w =
     (if can_open e filename
      then (case body [] of (r, buf) \<Rightarrow> (r, w\<lparr>files := (files w)(filename \<mapsto> buf)\<rparr>))
      else (Some OSError, w))"

definition attempt :: "py_error + 'a \<Rightarrow> ('a \<Rightarrow> py_error + 'b) \<Rightarrow> py_error + 'b" where
  "attempt r f = (case r of Inl err \<Rightarrow> Inl err | Inr v \<Rightarrow> f v)"

definition fieldnames :: "string list" where
  "fieldnames = [''tagName'', ''historianItemId'', ''sourceItemId'', ''oldestTimeStamp'',
                 ''latestTimeStamp'']"

text \<open>The body of the loop of \<^verbatim>\<open>save_to_csv\<close>: the row is built first, in the order
  of the source, then written.\<close>

definition csv_item :: "json \<Rightarrow> py_error + string" where
  "csv_item item =
     attempt (subscript item ''tagContext'') (\<lambda>tag_context.
     attempt (subscript item ''tagName'') (\<lambda>name.
     attempt (dict_get tag_context ''historianItemId'' JNull) (\<lambda>h.
     attempt (dict_get tag_context ''sourceItemId'' JNull) (\<lambda>s.
     attempt (dict_get tag_context ''oldestTimeStamp'' JNull) (\<lambda>old.
     attempt (dict_get tag_context ''latestTimeStamp'' JNull) (\<lambda>new.
       DictWriter_writerow fieldnames
         [(''tagName'', name), (''historianItemId'', h), (''sourceItemId'', s),
          (''oldestTimeStamp'', old), (''latestTimeStamp'', new)]))))))"

definition save_to_csv :: "env \<Rightarrow> json \<Rightarrow> string \<Rightarrow> world \<Rightarrow> py_error option \<times> world" where
  "save_to_csv e data filename =
     with_open e filename
       (and_then (write_result (DictWriter_writeheader fieldnames))
                 (for_in data (\<lambda>item. write_result (csv_item item))))"

text \<open>The body of the loop of \<^verbatim>\<open>save_to_txt\<close>: six calls of \<^verbatim>\<open>file.write\<close>, each
  with its own lookups.\<close>

definition name_line :: "json \<Rightarrow> py_error + string" where
  "name_line item =
     attempt (subscript item ''tagName'') (\<lambda>name. Inr (''TagName: '' @ py_str name @ [LF]))"

definition context_line :: "string \<Rightarrow> string \<Rightarrow> json \<Rightarrow> py_error + string" where
  "context_line label key item =
     attempt (subscript item ''tagContext'') (\<lambda>tag_context.
     attempt (dict_get tag_context key JNull) (\<lambda>v. Inr (label @ py_str v @ [LF])))"

definition txt_item :: "json \<Rightarrow> writing" where
  "txt_item item =
     and_then (write_result (name_line item))
    (and_then (write_result (context_line ''  HistorianItemId: '' ''historianItemId'' item))
    (and_then (write_result (context_line ''  SourceItemId: '' ''sourceItemId'' item))
    (and_then (write_result (context_line ''  OldestTimeStamp: '' ''oldestTimeStamp'' item))
    (and_then (write_result (context_line ''  LatestTimeStamp: '' ''latestTimeStamp'' item))
              (write_result (Inr [LF]))))))"

definition save_to_txt :: "env \<Rightarrow> json \<Rightarrow> string \<Rightarrow> world \<Rightarrow> py_error option \<times> world" where
  "save_to_txt e data filename = with_open e filename (for_in data txt_item)"

definition save_to_json :: "env \<Rightarrow> json \<Rightarrow> string \<Rightarrow> world \<Rightarrow> py_error option \<times> world" where
  "save_to_json e data filename =
     with_open e filename (write_result (Inr (json_dumps (Some 4) data)))"

subsection \<open>\<^verbatim>\<open>main\<close>\<close>

definition dispatch :: "env \<Rightarrow> string \<Rightarrow> json \<Rightarrow> string \<Rightarrow> world \<Rightarrow> py_error option \<times> world" where
  "dispatch e output_format tag_context_data output_file w =
     (if output_format = ''csv'' then save_to_csv e tag_context_data output_file w
      else if output_format = ''txt'' then save_to_txt e tag_context_data output_file w
      else if output_format = ''json'' then save_to_json e tag_context_data output_file w
      else (None, w))"

definition main ::
  "env \<Rightarrow> string \<Rightarrow> string \<Rightarrow> string \<Rightarrow> string \<Rightarrow> string \<Rightarrow> string \<Rightarrow> string \<Rightarrow> world
     \<Rightarrow> py_error option \<times> world" where
  "main e canary api_version api_token application timezone output_format output_file w =
     (case get_tags e canary api_version api_token application timezone w of
        (Inl err, w1) \<Rightarrow> (Some err, w1)
      | (Inr tags, w1) \<Rightarrow>
          if truthy tags
          then (case get_tag_context e canary api_version api_token tags w1 of
                  (Inl err, w2) \<Rightarrow> (Some err, w2)
                | (Inr tag_context_data, w2) \<Rightarrow>
                    if truthy tag_context_data
                    then (case dispatch e output_format tag_context_data output_file w2 of
                            (Some err, w3) \<Rightarrow> (Some err, w3)
                          | (None, w3) \<Rightarrow>
                              (None, print (''Data saved to '' @ output_file @ '' in ''
                                            @ output_format @ '' format.'') w3))
                    else (None, print ''No data returned in the tag context.'' w2))
          else (None, print ''No tags found.'' w1))"

section \<open>Records and the layout of the output\<close>

text \<open>
  A record of the result set is a dictionary with the keys \<^verbatim>\<open>tagName\<close> and
  \<^verbatim>\<open>tagContext\<close>, the latter a dictionary again, which may lack any of its four
  fields. The five values of a record, in column order, are its cells; a missing field of
  the context is \<^verbatim>\<open>None\<close>, as \<^verbatim>\<open>dict.get\<close> returns it.
\<close>

fun is_object :: "json \<Rightarrow> bool" where
  "is_object (JObj kvs) = True"
| "is_object _ = False"

fun has_key :: "json \<Rightarrow> string \<Rightarrow> bool" where
  "has_key (JObj kvs) k = (map_of kvs k \<noteq> None)"
| "has_key _ k = False"

fun lookup_or_none :: "json \<Rightarrow> string \<Rightarrow> json" where
  "lookup_or_none (JObj kvs) k = (case map_of kvs k of None \<Rightarrow> JNull | Some v \<Rightarrow> v)"
| "lookup_or_none _ k = JNull"

definition is_record :: "json \<Rightarrow> bool" where
  "is_record item =
     (has_key item ''tagName'' \<and> has_key item ''tagContext''
      \<and> is_object (lookup_or_none item ''tagContext''))"

definition cells :: "json \<Rightarrow> json list" where
  "cells item =
     lookup_or_none item ''tagName''
       # map (lookup_or_none (lookup_or_none item ''tagContext''))
           [''historianItemId'', ''sourceItemId'', ''oldestTimeStamp'', ''latestTimeStamp'']"

text \<open>A record-like item is a dictionary whose \<^verbatim>\<open>tagContext\<close>, if it has one, is
  a dictionary; it may lack either key.\<close>

definition record_like :: "json \<Rightarrow> bool" where
  "record_like item =
     (is_object item
      \<and> (has_key item ''tagContext'' \<longrightarrow> is_object (lookup_or_none item ''tagContext'')))"

definition complete :: "json \<Rightarrow> bool" where
  "complete item = (has_key item ''tagName'' \<and> has_key item ''tagContext'')"

text \<open>The lines of a CSV file: each is the cells of a row joined by commas, and ends with
  carriage return and line feed. The lines of a text are counted by its line feeds.\<close>

definition csv_cell :: "json \<Rightarrow> string" where
  "csv_cell v = csv_join_append (csv_field_text v)"

definition csv_line :: "json \<Rightarrow> string" where
  "csv_line item = join '','' (map csv_cell (cells item))"

definition header_line :: string where
  "header_line = ''tagName,historianItemId,sourceItemId,oldestTimeStamp,latestTimeStamp''"

definition terminated :: "string \<Rightarrow> string" where
  "terminated l = l @ [CR, LF]"

definition line_count :: "string \<Rightarrow> nat" where
  "line_count text = length (filter (\<lambda>c. c = LF) text)"

text \<open>The blocks of a text file: five labelled lines in column order. The blocks are
  separated by an empty line, and an empty line follows the last.\<close>

definition labels :: "string list" where
  "labels = [''TagName: '', ''  HistorianItemId: '', ''  SourceItemId: '',
             ''  OldestTimeStamp: '', ''  LatestTimeStamp: '']"

definition txt_block :: "json \<Rightarrow> string" where
  "txt_block item = concat (map2 (\<lambda>label v. label @ py_str v @ [LF]) labels (cells item))"

definition txt_layout :: "json list \<Rightarrow> string" where
  "txt_layout recs = join [LF] (map txt_block recs) @ [LF]"

section \<open>Reading JSON back\<close>

text \<open>
  A reader for the JSON texts whose values lie in this model; on those it follows
  \<^verbatim>\<open>json.loads\<close>: white space between tokens is skipped; a string may hold the
  escapes of the JSON grammar; a number is an optional minus sign and decimal digits
  without a leading zero. It is not the whole of \<^verbatim>\<open>json.loads\<close>: a number with a
  fraction or an exponent, which Python reads as a floating-point number, and a
  \<^verbatim>\<open>\uNNNN\<close> escape above 255 have no value in the model, and the reader gives none.
  A key that occurs again in an object replaces the earlier value in place. The recursion
  on nested values is bounded by the length of the text; for every text that the encoder
  writes this is enough, as is proved below.
\<close>

definition is_ws :: "char \<Rightarrow> bool" where
  "is_ws c = (c = CHR '' '' \<or> c = CHR 0x09 \<or> c = LF \<or> c = CR)"

definition skip_ws :: "string \<Rightarrow> string" where
  "skip_ws s = dropWhile is_ws s"

definition is_digit :: "char \<Rightarrow> bool" where
  "is_digit c = (48 \<le> (of_char c :: nat) \<and> (of_char c :: nat) \<le> 57)"

definition digit_val :: "char \<Rightarrow> nat" where
  "digit_val c = of_char c - 48"

definition nat_of_digits :: "string \<Rightarrow> nat" where
  "nat_of_digits ds = foldl (\<lambda>a c. 10 * a + digit_val c) 0 ds"

definition hex_val :: "char \<Rightarrow> nat option" where
  "hex_val c =
     (let n = (of_char c :: nat)
      in if 48 \<le> n \<and> n \<le> 57 then Some (n - 48)
         else if 97 \<le> n \<and> n \<le> 102 then Some (n - 87)
         else if 65 \<le> n \<and> n \<le> 70 then Some (n - 55)
         else None)"

fun hex4 :: "char \<Rightarrow> char \<Rightarrow> char \<Rightarrow> char \<Rightarrow> nat option" where
  "hex4 a b c d =
     (case (hex_val a, hex_val b, hex_val c, hex_val d) of
        (Some x, Some y, Some z, Some u) \<Rightarrow> Some (((x * 16 + y) * 16 + z) * 16 + u)
      | _ \<Rightarrow> None)"

definition unescape :: "char \<Rightarrow> char option" where
  "unescape c =
     (if c = DQ then Some DQ
      else if c = BSL then Some BSL
      else if c = CHR ''/'' then Some CHR ''/''
      else if c = CHR ''b'' then Some (CHR 0x08)
      else if c = CHR ''f'' then Some (CHR 0x0C)
      else if c = CHR ''n'' then Some LF
      else if c = CHR ''r'' then Some CR
      else if c = CHR ''t'' then Some (CHR 0x09)
      else None)"

definition prepend :: "'a \<Rightarrow> ('a list \<times> string) option \<Rightarrow> ('a list \<times> string) option" where
  "prepend x r = (case r of None \<Rightarrow> None | Some (xs, rest) \<Rightarrow> Some (x # xs, rest))"

fun scan_string :: "string \<Rightarrow> (string \<times> string) option" where
  "scan_string [] = None"
| "scan_string (c # cs) =
     (if c = DQ then Some ([], cs)
      else if c = BSL then
        (case cs of
           [] \<Rightarrow> None
         | x # cs1 \<Rightarrow>
             if x = CHR ''u'' then
               (case cs1 of
                  h1 # h2 # h3 # h4 # cs2 \<Rightarrow>
                    (case hex4 h1 h2 h3 h4 of
                       None \<Rightarrow> None
                     | Some n \<Rightarrow> if n < 256 then prepend (char_of n) (scan_string cs2) else None)
                | _ \<Rightarrow> None)
             else (case unescape x of None \<Rightarrow> None | Some d \<Rightarrow> prepend d (scan_string cs1)))
      else if (of_char c :: nat) < 32 then None
      else prepend c (scan_string cs))"

definition scan_number :: "string \<Rightarrow> (json \<times> string) option" where
  "scan_number s =
     (let neg = (s \<noteq> [] \<and> hd s = CHR ''-'');
          body = (if neg then tl s else s);
          ds = takeWhile is_digit body;
          rest = dropWhile is_digit body
      in if ds = [] \<or> (hd ds = CHR ''0'' \<and> length ds > 1) then None
         else if rest \<noteq> [] \<and> hd rest \<in> {CHR ''.'', CHR ''e'', CHR ''E''} then None
         else Some (JInt (if neg then - int (nat_of_digits ds) else int (nat_of_digits ds)), rest))"

fun dict_set :: "string \<Rightarrow> json \<Rightarrow> (string \<times> json) list \<Rightarrow> (string \<times> json) list" where
  "dict_set k v [] = [(k, v)]"
| "dict_set k v (p # ps) = (if fst p = k then (k, v) # ps else p # dict_set k v ps)"

definition dict_of :: "(string \<times> json) list \<Rightarrow> (string \<times> json) list" where
  "dict_of pairs = foldl (\<lambda>d kv. dict_set (fst kv) (snd kv) d) [] pairs"

definition starts_with :: "string \<Rightarrow> string \<Rightarrow> bool" where
  "starts_with p s = (take (length p) s = p)"

fun parse_value :: "nat \<Rightarrow> string \<Rightarrow> (json \<times> string) option"
  and parse_elements :: "nat \<Rightarrow> string \<Rightarrow> (json list \<times> string) option"
  and parse_members :: "nat \<Rightarrow> string \<Rightarrow> ((string \<times> json) list \<times> string) option" where
  "parse_value 0 s = None"
| "parse_value (Suc n) s =
     (case skip_ws s of
        [] \<Rightarrow> None
      | c # cs \<Rightarrow>
          if c = CHR ''['' then
            (case skip_ws cs of
               [] \<Rightarrow> None
             | d # r \<Rightarrow>
                 if d = CHR '']'' then Some (JArr [], r)
                 else (case parse_elements n cs of
                         None \<Rightarrow> None | Some (xs, rest) \<Rightarrow> Some (JArr xs, rest)))
          else if c = CHR ''{'' then
            (case skip_ws cs of
               [] \<Rightarrow> None
             | d # r \<Rightarrow>
                 if d = CHR ''}'' then Some (JObj [], r)
                 else (case parse_members n cs of
                         None \<Rightarrow> None | Some (kvs, rest) \<Rightarrow> Some (JObj (dict_of kvs), rest)))
          else if c = DQ then
            (case scan_string cs of None \<Rightarrow> None | Some (str, rest) \<Rightarrow> Some (JStr str, rest))
          else if starts_with ''null'' (c # cs) then Some (JNull, drop 4 (c # cs))
          else if starts_with ''true'' (c # cs) then Some (JBool True, drop 4 (c # cs))
          else if starts_with ''false'' (c # cs) then Some (JBool False, drop 5 (c # cs))
          else scan_number (c # cs))"
| "parse_elements 0 s = None"
| "parse_elements (Suc n) s =
     (case parse_value n s of
        None \<Rightarrow> None
      | Some (v, r) \<Rightarrow>
          (case skip_ws r of
             [] \<Rightarrow> None
           | c # r1 \<Rightarrow>
               if c = CHR '','' then prepend v (parse_elements n r1)
               else if c = CHR '']'' then Some ([v], r1)
               else None))"
| "parse_members 0 s = None"
| "parse_members (Suc n) s =
     (case skip_ws s of
        [] \<Rightarrow> None
      | q # cs \<Rightarrow>
          if q = DQ then
            (case scan_string cs of
               None \<Rightarrow> None
             | Some (k, r) \<Rightarrow>
                 (case skip_ws r of
                    [] \<Rightarrow> None
                  | c # r1 \<Rightarrow>
                      if c = CHR '':'' then
                        (case parse_value n r1 of
                           None \<Rightarrow> None
                         | Some (v, r2) \<Rightarrow>
                             (case skip_ws r2 of
                                [] \<Rightarrow> None
                              | d # r3 \<Rightarrow>
                                  if d = CHR '','' then prepend (k, v) (parse_members n r3)
                                  else if d = CHR ''}'' then Some ([(k, v)], r3)
                                  else None))
                      else None))
          else None)"

definition json_loads :: "string \<Rightarrow> json option" where
  "json_loads s =
     (case parse_value (length s) s of
        None \<Rightarrow> None
      | Some (v, rest) \<Rightarrow> if skip_ws rest = [] then Some v else None)"

text \<open>What may follow a number in a text: nothing, or a character that does not continue
  it. What a value may start with.\<close>

definition delimited :: "string \<Rightarrow> bool" where
  "delimited rest = (rest = [] \<or> \<not> is_digit (hd rest) \<and> hd rest \<notin> {CHR ''.'', CHR ''e'', CHR ''E''})"

definition value_start :: "char \<Rightarrow> bool" where
  "value_start c = (c \<in> {CHR ''['', CHR ''{'', DQ, CHR ''n'', CHR ''t'', CHR ''f'', CHR ''-''} \<or> is_digit c)"

section \<open>Sample environments\<close>

text \<open>Concrete servers and a fresh state, on which the properties below are evaluated.\<close>

definition post :: "string \<Rightarrow> string \<Rightarrow> request" where
  "post url data = mk_request ''POST'' url json_headers data"

definition fresh :: world where
  "fresh = \<lparr>sent = [], files = (\<lambda>name. None), stdout = []\<rparr>"

definition offline :: env where
  "offline = \<lparr>net = (\<lambda>rq. RequestException ''Connection refused''), can_open = (\<lambda>name. True)\<rparr>"

definition answer :: "nat \<Rightarrow> string \<Rightarrow> json \<Rightarrow> net_outcome" where
  "answer code url body =
     Responds \<lparr>status_code = code, reason = ''-'', resp_url = url, json_body = Some body\<rparr>"

definition serving :: "json \<Rightarrow> json \<Rightarrow> env" where
  "serving browse_body context_body =
     \<lparr>net = (\<lambda>rq. if req_url rq = browse_url ''https://h'' ''api/v2''
                   then answer 200 (req_url rq) browse_body
                   else answer 200 (req_url rq) context_body),
      can_open = (\<lambda>name. True)\<rparr>"

definition tag1 :: json where
  "tag1 = JObj [(''tagName'', JStr ''Tag1.PV''),
                (''tagContext'', JObj [(''historianItemId'', JStr ''h1''),
                                       (''sourceItemId'', JStr ''s1''),
                                       (''oldestTimeStamp'', JStr ''2024-01-01T00:00:00''),
                                       (''latestTimeStamp'', JStr ''2024-06-30T12:00:00'')])]"

text \<open>A record without \<^verbatim>\<open>sourceItemId\<close>, and one without \<^verbatim>\<open>tagContext\<close>.\<close>

definition tag2 :: json where
  "tag2 = JObj [(''tagName'', JStr ''Tag2.PV''),
                (''tagContext'', JObj [(''historianItemId'', JStr ''h2''),
                                       (''oldestTimeStamp'', JStr ''2024-02-01T00:00:00''),
                                       (''latestTimeStamp'', JStr ''2024-06-30T12:00:00'')])]"

definition tag3 :: json where
  "tag3 = JObj [(''tagName'', JStr ''Tag3.PV'')]"

text \<open>A record whose \<^verbatim>\<open>tagContext\<close> is \<^verbatim>\<open>None\<close>.\<close>

definition tag4 :: json where
  "tag4 = JObj [(''tagName'', JStr ''Tag4.PV''), (''tagContext'', JNull)]"

definition status_only :: "nat \<Rightarrow> env" where
  "status_only code = \<lparr>net = (\<lambda>rq. answer code (req_url rq) JNull), can_open = (\<lambda>name. True)\<rparr>"

text \<open>The text and JSON output for the record without \<^verbatim>\<open>sourceItemId\<close>, as a
  function of what stands for the missing field.\<close>

definition quoted :: "string \<Rightarrow> string" where
  "quoted s = DQ # s @ [DQ]"

definition tag2_txt :: "string \<Rightarrow> string" where
  "tag2_txt source =
     concat (map (\<lambda>l. l @ [LF])
       [''TagName: Tag2.PV'',
        ''  HistorianItemId: h2'',
        ''  SourceItemId: '' @ source,
        ''  OldestTimeStamp: 2024-02-01T00:00:00'',
        ''  LatestTimeStamp: 2024-06-30T12:00:00'',
        ''''])"

definition tag2_json :: "string list \<Rightarrow> string" where
  "tag2_json source =
     join [LF]
       ([''['',
         ''    {'',
         ''        '' @ quoted ''tagName'' @ '': '' @ quoted ''Tag2.PV'' @ '','',
         ''        '' @ quoted ''tagContext'' @ '': {'',
         ''            '' @ quoted ''historianItemId'' @ '': '' @ quoted ''h2'' @ '','']
        @ source @
        [''            '' @ quoted ''oldestTimeStamp'' @ '': '' @ quoted ''2024-02-01T00:00:00'' @ '','',
         ''            '' @ quoted ''latestTimeStamp'' @ '': '' @ quoted ''2024-06-30T12:00:00'',
         ''        }'',
         ''    }'',
         '']''])"

section \<open>Frame properties of the HTTP clients\<close>

lemma request_call_frame:
  assumes "request_call e m u h d w = (r, w1)"
  shows "files w1 = files w \<and> sent w1 = sent w @ [mk_request m u h d]"
  using assms
  by (auto simp: request_call_def Let_def print_def send_def split: net_outcome.splits option.splits)

lemma get_tags_frame:
  assumes "get_tags e c v t a z w = (r, w1)"
  shows "files w1 = files w \<and> sent w1 = sent w @ [post (browse_url c v) (browse_payload a z t)]"
proof -
  obtain r0 where "request_call e ''POST'' (browse_url c v) json_headers (browse_payload a z t) w = (r0, w1)"
    using assms by (auto simp: get_tags_def Let_def split: prod.splits sum.splits)
  then show ?thesis unfolding post_def by (rule request_call_frame)
qed

lemma get_tag_context_frame:
  assumes "get_tag_context e c v t tags w = (r, w1)"
  shows "files w1 = files w \<and> sent w1 = sent w @ [post (context_url c v) (context_payload t tags)]"
proof -
  obtain r0 where "request_call e ''POST'' (context_url c v) json_headers (context_payload t tags) w = (r0, w1)"
    using assms by (auto simp: get_tag_context_def Let_def split: prod.splits sum.splits)
  then show ?thesis unfolding post_def by (rule request_call_frame)
qed

lemma urls_differ: "browse_url c v \<noteq> context_url c v"
  by (simp add: browse_url_def context_url_def)

lemma request_call_ok:
  "request_call e m u h d w = (Inr (Some r), w1) \<Longrightarrow> response_ok r"
  by (auto simp: request_call_def response_ok_def Let_def split: net_outcome.splits option.splits)

lemma serving_tags:
  "get_tags (serving (JObj [(''tags'', tags)]) b) ''https://h'' ''api/v2'' ''token'' ''app'' ''tz'' fresh
     = (Inr tags, \<lparr>sent = [post (browse_url ''https://h'' ''api/v2'') (browse_payload ''app'' ''tz'' ''token'')],
               files = (\<lambda>name. None), stdout = []\<rparr>)"
  by (simp add: get_tags_def request_call_def serving_def answer_def fresh_def extract_field_def
      response_ok_def raise_for_status_def response_json_def post_def send_def mk_request_def)

lemma serving_context:
  "get_tag_context (serving b1 (JObj [(''data'', d)])) ''https://h'' ''api/v2'' ''token'' tags
      \<lparr>sent = rqs, files = fs, stdout = out\<rparr>
     = (Inr d, \<lparr>sent = rqs @ [post (context_url ''https://h'' ''api/v2'') (context_payload ''token'' tags)],
               files = fs, stdout = out\<rparr>)"
  using urls_differ [of "''https://h''" "''api/v2''"]
  by (simp add: get_tag_context_def request_call_def serving_def answer_def extract_field_def
      response_ok_def raise_for_status_def response_json_def post_def send_def mk_request_def)

lemma offline_call:
  "request_call offline ''POST'' u json_headers d fresh
     = (Inr None, \<lparr>sent = [post u d], files = (\<lambda>name. None),
                   stdout = [''Error during request: Connection refused'']\<rparr>)"
  by (simp add: request_call_def offline_def fresh_def send_def print_def post_def)

lemma serving_call:
  "request_call (serving b1 b2) ''POST'' (browse_url ''https://h'' ''api/v2'') json_headers d fresh
     = (Inr (Some \<lparr>status_code = 200, reason = ''-'', resp_url = browse_url ''https://h'' ''api/v2'',
                    json_body = Some b1\<rparr>),
        \<lparr>sent = [post (browse_url ''https://h'' ''api/v2'') d], files = (\<lambda>name. None), stdout = []\<rparr>)"
  by (simp add: request_call_def serving_def answer_def fresh_def send_def post_def mk_request_def
      raise_for_status_def)

section \<open>The orchestrator\<close>

text \<open>
  C3. When \<^verbatim>\<open>get_tags\<close> returns the empty list, \<^verbatim>\<open>main\<close> returns after printing
  \<^verbatim>\<open>No tags found.\<close>: the files are those from before the run, and the only request
  of the run is the one to \<^verbatim>\<open>browseTags\<close>, whose URL is not that of
  \<^verbatim>\<open>getTagContext\<close>.
\<close>

theorem main_no_tags:
  assumes "get_tags e canary api_version api_token application timezone w = (Inr (JArr []), w1)"
  shows "main e canary api_version api_token application timezone output_format output_file w
           = (None, print ''No tags found.'' w1)
         \<and> files (print ''No tags found.'' w1) = files w
         \<and> sent (print ''No tags found.'' w1)
             = sent w @ [post (browse_url canary api_version) (browse_payload application timezone api_token)]
         \<and> req_url (post (browse_url canary api_version) (browse_payload application timezone api_token))
             \<noteq> context_url canary api_version"
proof -
  have "main e canary api_version api_token application timezone output_format output_file w
           = (None, print ''No tags found.'' w1)"
    using assms by (simp add: main_def)
  moreover have "files w1 = files w \<and> sent w1 = sent w @ [post (browse_url canary api_version) (browse_payload application timezone api_token)]"
    using assms by (rule get_tags_frame)
  ultimately show ?thesis by (simp add: print_def post_def mk_request_def urls_differ)
qed

theorem main_no_tags_witness:
  "main offline ''https://h'' ''api/v2'' ''token'' ''app'' ''tz'' ''csv'' ''out.csv'' fresh
     = (None, \<lparr>sent = [post (browse_url ''https://h'' ''api/v2'') (browse_payload ''app'' ''tz'' ''token'')],
               files = (\<lambda>name. None),
               stdout = [''Error during request: Connection refused'', ''No tags found.'']\<rparr>)"
proof -
  have "get_tags offline ''https://h'' ''api/v2'' ''token'' ''app'' ''tz'' fresh
          = (Inr (JArr []), \<lparr>sent = [post (browse_url ''https://h'' ''api/v2'') (browse_payload ''app'' ''tz'' ''token'')],
               files = (\<lambda>name. None),
               stdout = [''Error during request: Connection refused'']\<rparr>)"
    by (simp add: get_tags_def request_call_def offline_def fresh_def extract_field_def print_def post_def send_def)
  from main_no_tags [OF this, of "''csv''" "''out.csv''"] show ?thesis
    by (simp add: print_def)
qed

text \<open>
  C4. When \<^verbatim>\<open>get_tags\<close> returns a non-empty list and \<^verbatim>\<open>get_tag_context\<close> the
  empty list, \<^verbatim>\<open>main\<close> returns after printing
  \<^verbatim>\<open>No data returned in the tag context.\<close>, and the files are those from before the
  run.
\<close>

theorem main_no_context_data:
  assumes "get_tags e canary api_version api_token application timezone w = (Inr tags, w1)"
    and "truthy tags"
    and "get_tag_context e canary api_version api_token tags w1 = (Inr (JArr []), w2)"
  shows "main e canary api_version api_token application timezone output_format output_file w
           = (None, print ''No data returned in the tag context.'' w2)
         \<and> files (print ''No data returned in the tag context.'' w2) = files w"
proof -
  have "files w1 = files w" using assms(1) get_tags_frame by blast
  moreover have "files w2 = files w1" using assms(3) get_tag_context_frame by blast
  moreover have "main e canary api_version api_token application timezone output_format output_file w
           = (None, print ''No data returned in the tag context.'' w2)"
    using assms by (simp add: main_def)
  ultimately show ?thesis by (simp add: print_def)
qed

theorem main_no_context_data_witness:
  "main (serving (JObj [(''tags'', JArr [JStr ''Tag1.PV''])]) (JObj [(''data'', JArr [])]))
      ''https://h'' ''api/v2'' ''token'' ''app'' ''tz'' ''csv'' ''out.csv'' fresh
     = (None, \<lparr>sent = [post (browse_url ''https://h'' ''api/v2'') (browse_payload ''app'' ''tz'' ''token''),
                       post (context_url ''https://h'' ''api/v2'') (context_payload ''token'' (JArr [JStr ''Tag1.PV'']))],
               files = (\<lambda>name. None),
               stdout = [''No data returned in the tag context.'']\<rparr>)"
  using main_no_context_data [where output_format = "''csv''" and output_file = "''out.csv''",
      OF serving_tags _ serving_context]
  by (simp add: print_def)

text \<open>
  C10. When both clients return non-empty results and the output format is none of
  \<^verbatim>\<open>csv\<close>, \<^verbatim>\<open>txt\<close> and \<^verbatim>\<open>json\<close>, \<^verbatim>\<open>main\<close> writes no file and still
  prints \<^verbatim>\<open>Data saved to {output_file} in {output_format} format.\<close>
\<close>

theorem main_unknown_format:
  assumes "get_tags e canary api_version api_token application timezone w = (Inr tags, w1)"
    and "truthy tags"
    and "get_tag_context e canary api_version api_token tags w1 = (Inr tag_context_data, w2)"
    and "truthy tag_context_data"
    and "output_format \<notin> {''csv'', ''txt'', ''json''}"
  shows "main e canary api_version api_token application timezone output_format output_file w
           = (None, print (''Data saved to '' @ output_file @ '' in '' @ output_format @ '' format.'') w2)
         \<and> files (print (''Data saved to '' @ output_file @ '' in '' @ output_format @ '' format.'') w2) = files w"
proof -
  have "files w1 = files w" using assms(1) get_tags_frame by blast
  moreover have "files w2 = files w1" using assms(3) get_tag_context_frame by blast
  moreover have "dispatch e output_format tag_context_data output_file w2 = (None, w2)"
    using assms(5) by (simp add: dispatch_def)
  then have "main e canary api_version api_token application timezone output_format output_file w
           = (None, print (''Data saved to '' @ output_file @ '' in '' @ output_format @ '' format.'') w2)"
    using assms(1-4) by (simp add: main_def)
  ultimately show ?thesis by (simp add: print_def)
qed

theorem main_unknown_format_witness:
  "main (serving (JObj [(''tags'', JArr [JStr ''Tag1.PV''])])
                 (JObj [(''data'', JArr [JObj [(''tagName'', JStr ''Tag1.PV''), (''tagContext'', JObj [])]])]))
      ''https://h'' ''api/v2'' ''token'' ''app'' ''tz'' ''xml'' ''out.xml'' fresh
     = (None, \<lparr>sent = [post (browse_url ''https://h'' ''api/v2'') (browse_payload ''app'' ''tz'' ''token''),
                       post (context_url ''https://h'' ''api/v2'') (context_payload ''token'' (JArr [JStr ''Tag1.PV'']))],
               files = (\<lambda>name. None),
               stdout = [''Data saved to out.xml in xml format.'']\<rparr>)"
  using main_unknown_format [where output_format = "''xml''" and output_file = "''out.xml''",
      OF serving_tags _ serving_context]
  by (simp add: print_def)

section \<open>The HTTP wrapper\<close>

text \<open>
  C5, as the code has it. \<^verbatim>\<open>_request_call\<close> catches every
  \<^verbatim>\<open>RequestException\<close> of the request and the \<^verbatim>\<open>HTTPError\<close> of a response with
  status 400 to 599: it prints \<^verbatim>\<open>Error during request:\<close> with the message and returns
  \<^verbatim>\<open>None\<close>. For a response with any other status, the success range 200 to 299
  included, it returns the response.
\<close>

theorem request_call_soft_fail:
  "(net e (mk_request m u h d) = RequestException msg \<longrightarrow>
      request_call e m u h d w
        = (Inr None, print (''Error during request: '' @ msg) (send (mk_request m u h d) w)))
   \<and> (net e (mk_request m u h d) = Responds r \<and> 400 \<le> status_code r \<and> status_code r < 600 \<longrightarrow>
      (\<exists>text. request_call e m u h d w
        = (Inr None, print (''Error during request: '' @ text) (send (mk_request m u h d) w))))
   \<and> (net e (mk_request m u h d) = Responds r \<and> \<not> (400 \<le> status_code r \<and> status_code r < 600) \<longrightarrow>
      request_call e m u h d w = (Inr (Some r), send (mk_request m u h d) w))"
  by (auto simp: request_call_def raise_for_status_def)

theorem request_call_soft_fail_witness:
  "request_call offline ''POST'' ''https://h/api/v2/browseTags'' json_headers [] fresh
     = (Inr None, \<lparr>sent = [mk_request ''POST'' ''https://h/api/v2/browseTags'' json_headers []],
                   files = (\<lambda>name. None),
                   stdout = [''Error during request: Connection refused'']\<rparr>)
   \<and> (\<exists>text. request_call (status_only 404) ''POST'' ''https://h/api/v2/browseTags'' json_headers [] fresh
     = (Inr None, \<lparr>sent = [mk_request ''POST'' ''https://h/api/v2/browseTags'' json_headers []],
                   files = (\<lambda>name. None),
                   stdout = [''Error during request: '' @ text]\<rparr>))
   \<and> request_call (status_only 200) ''POST'' ''https://h/api/v2/browseTags'' json_headers [] fresh
     = (Inr (Some \<lparr>status_code = 200, reason = ''-'', resp_url = ''https://h/api/v2/browseTags'',
                     json_body = Some JNull\<rparr>),
        \<lparr>sent = [mk_request ''POST'' ''https://h/api/v2/browseTags'' json_headers []],
                   files = (\<lambda>name. None), stdout = []\<rparr>)"
  using request_call_soft_fail [where e = offline and m = "''POST''"
          and u = "''https://h/api/v2/browseTags''" and h = json_headers and d = "[]"
          and msg = "''Connection refused''" and w = fresh]
    request_call_soft_fail [where e = "status_only 404" and m = "''POST''"
          and u = "''https://h/api/v2/browseTags''" and h = json_headers and d = "[]"
          and r = "\<lparr>status_code = 404, reason = ''-'', resp_url = ''https://h/api/v2/browseTags'',
                     json_body = Some JNull\<rparr>" and w = fresh]
    request_call_soft_fail [where e = "status_only 200" and m = "''POST''"
          and u = "''https://h/api/v2/browseTags''" and h = json_headers and d = "[]"
          and r = "\<lparr>status_code = 200, reason = ''-'', resp_url = ''https://h/api/v2/browseTags'',
                     json_body = Some JNull\<rparr>" and w = fresh]
  by (simp add: offline_def status_only_def answer_def fresh_def send_def print_def mk_request_def)

text \<open>
  A status outside the success range that is no error status: 304 is returned to the
  caller as a response, not as \<^verbatim>\<open>None\<close>.
\<close>

theorem request_call_not_modified:
  "\<not> (200 \<le> (304::nat) \<and> (304::nat) < 300)
   \<and> request_call (status_only 304) ''POST'' ''https://h/api/v2/browseTags'' json_headers [] fresh
       = (Inr (Some \<lparr>status_code = 304, reason = ''-'', resp_url = ''https://h/api/v2/browseTags'',
                     json_body = Some JNull\<rparr>),
          send (mk_request ''POST'' ''https://h/api/v2/browseTags'' json_headers []) fresh)"
  by (simp add: request_call_def status_only_def answer_def raise_for_status_def mk_request_def)

section \<open>Tag discovery\<close>

text \<open>
  C7, as the code has it. When the wrapper returns \<^verbatim>\<open>None\<close>, \<^verbatim>\<open>get_tags\<close>
  returns the empty list; when it returns a response whose body is a JSON object,
  \<^verbatim>\<open>get_tags\<close> returns the empty list if the object has no field \<^verbatim>\<open>tags\<close>, and
  the value of the field, unchanged, if it has one. No exception is raised in any of the
  three cases.
\<close>

theorem get_tags_soft_fail:
  "(request_call e ''POST'' (browse_url canary api_version) json_headers
        (browse_payload application timezone api_token) w = (Inr None, w1) \<longrightarrow>
      get_tags e canary api_version api_token application timezone w = (Inr (JArr []), w1))
   \<and> (request_call e ''POST'' (browse_url canary api_version) json_headers
        (browse_payload application timezone api_token) w = (Inr (Some r), w1)
      \<and> json_body r = Some (JObj kvs) \<and> ''tags'' \<notin> fst ` set kvs \<longrightarrow>
      get_tags e canary api_version api_token application timezone w = (Inr (JArr []), w1))
   \<and> (request_call e ''POST'' (browse_url canary api_version) json_headers
        (browse_payload application timezone api_token) w = (Inr (Some r), w1)
      \<and> json_body r = Some (JObj kvs) \<and> map_of kvs ''tags'' = Some v \<longrightarrow>
      get_tags e canary api_version api_token application timezone w = (Inr v, w1))"
proof (intro conjI impI)
  assume "request_call e ''POST'' (browse_url canary api_version) json_headers
        (browse_payload application timezone api_token) w = (Inr None, w1)"
  then show "get_tags e canary api_version api_token application timezone w = (Inr (JArr []), w1)"
    by (simp add: get_tags_def extract_field_def)
next
  assume a: "request_call e ''POST'' (browse_url canary api_version) json_headers
        (browse_payload application timezone api_token) w = (Inr (Some r), w1)
      \<and> json_body r = Some (JObj kvs) \<and> ''tags'' \<notin> fst ` set kvs"
  then have "response_ok r" using request_call_ok by blast
  moreover have "map_of kvs ''tags'' = None" using a by (simp add: map_of_eq_None_iff)
  ultimately show "get_tags e canary api_version api_token application timezone w = (Inr (JArr []), w1)"
    using a by (simp add: get_tags_def extract_field_def response_json_def)
next
  assume a: "request_call e ''POST'' (browse_url canary api_version) json_headers
        (browse_payload application timezone api_token) w = (Inr (Some r), w1)
      \<and> json_body r = Some (JObj kvs) \<and> map_of kvs ''tags'' = Some v"
  then have "response_ok r" using request_call_ok by blast
  then show "get_tags e canary api_version api_token application timezone w = (Inr v, w1)"
    using a by (simp add: get_tags_def extract_field_def response_json_def)
qed

theorem get_tags_soft_fail_witness:
  "get_tags offline ''https://h'' ''api/v2'' ''token'' ''app'' ''tz'' fresh
     = (Inr (JArr []),
        \<lparr>sent = [post (browse_url ''https://h'' ''api/v2'') (browse_payload ''app'' ''tz'' ''token'')],
         files = (\<lambda>name. None), stdout = [''Error during request: Connection refused'']\<rparr>)
   \<and> get_tags (serving (JObj [(''status'', JStr ''ok'')]) JNull) ''https://h'' ''api/v2'' ''token'' ''app'' ''tz'' fresh
     = (Inr (JArr []),
        \<lparr>sent = [post (browse_url ''https://h'' ''api/v2'') (browse_payload ''app'' ''tz'' ''token'')],
         files = (\<lambda>name. None), stdout = []\<rparr>)
   \<and> get_tags (serving (JObj [(''tags'', JArr [JStr ''Tag1.PV'', JStr ''Tag2.PV''])]) JNull)
         ''https://h'' ''api/v2'' ''token'' ''app'' ''tz'' fresh
     = (Inr (JArr [JStr ''Tag1.PV'', JStr ''Tag2.PV'']),
        \<lparr>sent = [post (browse_url ''https://h'' ''api/v2'') (browse_payload ''app'' ''tz'' ''token'')],
         files = (\<lambda>name. None), stdout = []\<rparr>)"
proof -
  let ?rq = "post (browse_url ''https://h'' ''api/v2'') (browse_payload ''app'' ''tz'' ''token'')"
  let ?w1 = "\<lparr>sent = [?rq], files = (\<lambda>name. None), stdout = []\<rparr>"
  let ?b1 = "JObj [(''status'', JStr ''ok'')]"
  let ?b2 = "JObj [(''tags'', JArr [JStr ''Tag1.PV'', JStr ''Tag2.PV''])]"
  have "get_tags offline ''https://h'' ''api/v2'' ''token'' ''app'' ''tz'' fresh
          = (Inr (JArr []), ?w1\<lparr>stdout := [''Error during request: Connection refused'']\<rparr>)"
    using get_tags_soft_fail [where e = offline and canary = "''https://h''"
        and api_version = "''api/v2''" and api_token = "''token''" and application = "''app''"
        and timezone = "''tz''" and w = fresh
        and ?w1.0 = "?w1\<lparr>stdout := [''Error during request: Connection refused'']\<rparr>"]
    by (simp add: offline_call)
  moreover have "get_tags (serving ?b1 JNull) ''https://h'' ''api/v2'' ''token'' ''app'' ''tz'' fresh
          = (Inr (JArr []), ?w1)"
    using get_tags_soft_fail [where e = "serving ?b1 JNull" and canary = "''https://h''"
        and api_version = "''api/v2''" and api_token = "''token''" and application = "''app''"
        and timezone = "''tz''" and w = fresh and ?w1.0 = ?w1 and kvs = "[(''status'', JStr ''ok'')]"
        and r = "\<lparr>status_code = 200, reason = ''-'', resp_url = browse_url ''https://h'' ''api/v2'',
                    json_body = Some ?b1\<rparr>"]
    by (simp add: serving_call)
  moreover have "get_tags (serving ?b2 JNull) ''https://h'' ''api/v2'' ''token'' ''app'' ''tz'' fresh
          = (Inr (JArr [JStr ''Tag1.PV'', JStr ''Tag2.PV'']), ?w1)"
    using get_tags_soft_fail [where e = "serving ?b2 JNull" and canary = "''https://h''"
        and api_version = "''api/v2''" and api_token = "''token''" and application = "''app''"
        and timezone = "''tz''" and w = fresh and ?w1.0 = ?w1
        and kvs = "[(''tags'', JArr [JStr ''Tag1.PV'', JStr ''Tag2.PV''])]"
        and v = "JArr [JStr ''Tag1.PV'', JStr ''Tag2.PV'']"
        and r = "\<lparr>status_code = 200, reason = ''-'', resp_url = browse_url ''https://h'' ''api/v2'',
                    json_body = Some ?b2\<rparr>"]
    by (simp add: serving_call)
  ultimately show ?thesis by simp
qed

text \<open>A body that is valid JSON but no object has no fields at all: there
  \<^verbatim>\<open>.get\<close> raises \<^verbatim>\<open>AttributeError\<close>.\<close>

lemma get_tags_not_an_object:
  assumes "request_call e ''POST'' (browse_url canary api_version) json_headers
             (browse_payload application timezone api_token) w = (Inr (Some r), w1)"
    and "json_body r = Some body" and "\<not> is_object body"
  shows "get_tags e canary api_version api_token application timezone w = (Inl AttributeError, w1)"
proof -
  have "response_ok r" using assms(1) by (rule request_call_ok)
  moreover have "dict_get body ''tags'' (JArr []) = Inl AttributeError"
    using assms(3) by (cases body) simp_all
  ultimately show ?thesis
    using assms(1,2) by (simp add: get_tags_def extract_field_def response_json_def)
qed

text \<open>
  A response with status 200 whose body is \<^verbatim>\<open>null\<close>, or a list of tag names: the
  body has no field \<^verbatim>\<open>tags\<close>, and \<^verbatim>\<open>get_tags\<close> raises
  \<^verbatim>\<open>AttributeError\<close> instead of returning the empty list.
\<close>

theorem get_tags_body_not_an_object:
  "\<not> has_key JNull ''tags''
   \<and> get_tags (serving JNull JNull) ''https://h'' ''api/v2'' ''token'' ''app'' ''tz'' fresh
       = (Inl AttributeError,
          send (post (browse_url ''https://h'' ''api/v2'') (browse_payload ''app'' ''tz'' ''token'')) fresh)
   \<and> \<not> has_key (JArr [JStr ''Tag1.PV'']) ''tags''
   \<and> get_tags (serving (JArr [JStr ''Tag1.PV'']) JNull) ''https://h'' ''api/v2'' ''token'' ''app'' ''tz'' fresh
       = (Inl AttributeError,
          send (post (browse_url ''https://h'' ''api/v2'') (browse_payload ''app'' ''tz'' ''token'')) fresh)"
proof -
  have "get_tags (serving body JNull) ''https://h'' ''api/v2'' ''token'' ''app'' ''tz'' fresh
       = (Inl AttributeError,
          send (post (browse_url ''https://h'' ''api/v2'') (browse_payload ''app'' ''tz'' ''token'')) fresh)"
    if "\<not> is_object body" for body
    using get_tags_not_an_object [OF serving_call, of body body] that
    by (simp add: send_def fresh_def)
  then show ?thesis by simp
qed

section \<open>The formatters on records\<close>

lemma for_each_all_written:
  assumes "\<forall>item\<in>set items. body item = Inr (text item)"
  shows "for_each (\<lambda>item. write_result (body item)) items buf = (None, buf @ concat (map text items))"
  using assms by (induction items arbitrary: buf) (simp_all add: write_result_def)

lemma csv_writerow_cells: "csv_writerow (cells item) = terminated (csv_line item)"
  by (simp add: csv_writerow_def csv_line_def cells_def csv_cell_def terminated_def)

lemma csv_item_record:
  assumes "is_record item"
  shows "csv_item item = Inr (terminated (csv_line item))"
proof -
  obtain kvs where item: "item = JObj kvs" using assms
    by (cases item) (simp_all add: is_record_def)
  obtain name where name: "map_of kvs ''tagName'' = Some name"
    using assms item by (auto simp: is_record_def)
  obtain c where c: "map_of kvs ''tagContext'' = Some (JObj c)"
    using assms item by (cases "map_of kvs ''tagContext''"; cases "the (map_of kvs ''tagContext'')")
      (auto simp: is_record_def)
  have "csv_item item = Inr (csv_writerow (cells item))"
    by (simp add: csv_item_def item name c attempt_def DictWriter_writerow_def dict_to_list_def
        fieldnames_def cells_def split: option.splits)
  then show ?thesis by (simp add: csv_writerow_cells)
qed

lemma writeheader: "DictWriter_writeheader fieldnames = Inr (terminated header_line)"
  by (simp add: DictWriter_writeheader_def DictWriter_writerow_def dict_to_list_def fieldnames_def
      csv_writerow_def csv_join_append_def csv_field_text_def py_str_def csv_special_def
      header_line_def terminated_def)

lemma save_to_csv_records:
  assumes "can_open e filename" and "list_all is_record recs"
  shows "save_to_csv e (JArr recs) filename w
           = (None, w\<lparr>files := (files w)(filename \<mapsto>
                        concat (map terminated (header_line # map csv_line recs)))\<rparr>)"
proof -
  have "\<forall>item\<in>set recs. csv_item item = Inr (terminated (csv_line item))"
    using assms(2) by (simp add: list_all_iff csv_item_record)
  then have "for_each (\<lambda>item. write_result (csv_item item)) recs (terminated header_line)
               = (None, terminated header_line @ concat (map (\<lambda>item. terminated (csv_line item)) recs))"
    by (rule for_each_all_written)
  then show ?thesis
    using assms(1)
    by (simp add: save_to_csv_def with_open_def and_then_def writeheader write_result_def
        for_in_def comp_def)
qed

lemma set_join: "set (join sep ls) \<subseteq> set sep \<union> \<Union> (set ` set ls)"
  by (induction sep ls rule: join.induct) auto

lemma set_csv_join_append: "set (csv_join_append s) \<subseteq> insert DQ (set s)"
  by (auto simp: csv_join_append_def Let_def split: if_splits)

lemma csv_line_no_LF:
  assumes "\<forall>v\<in>set (cells item). LF \<notin> set (csv_field_text v)"
  shows "LF \<notin> set (csv_line item)"
proof
  assume "LF \<in> set (csv_line item)"
  then have "LF \<in> set '','' \<union> \<Union> (set ` set (map csv_cell (cells item)))"
    using set_join unfolding csv_line_def by blast
  then obtain v where v: "v \<in> set (cells item)" and "LF \<in> set (csv_cell v)"
    by auto
  then have "LF \<in> insert DQ (set (csv_field_text v))"
    using set_csv_join_append unfolding csv_cell_def by blast
  then show False using assms v by simp
qed

lemma line_count_terminated:
  assumes "\<forall>l\<in>set ls. LF \<notin> set l"
  shows "line_count (concat (map terminated ls)) = length ls"
  using assms
proof (induction ls)
  case Nil
  then show ?case by (simp add: line_count_def)
next
  case (Cons l ls)
  have "filter (\<lambda>c. c = LF) l = []" using Cons.prems by (auto simp: filter_empty_conv)
  then show ?case using Cons by (simp add: line_count_def terminated_def)
qed

lemma is_recordE:
  assumes "is_record item"
  obtains kvs name c where "item = JObj kvs" "map_of kvs ''tagName'' = Some name"
    "map_of kvs ''tagContext'' = Some (JObj c)"
proof -
  obtain kvs where item: "item = JObj kvs" using assms
    by (cases item) (simp_all add: is_record_def)
  obtain name where name: "map_of kvs ''tagName'' = Some name"
    using assms item by (auto simp: is_record_def)
  obtain c where c: "map_of kvs ''tagContext'' = Some (JObj c)"
    using assms item by (cases "map_of kvs ''tagContext''"; cases "the (map_of kvs ''tagContext'')")
      (auto simp: is_record_def)
  show thesis using that item name c by blast
qed

lemma name_line_record:
  assumes "is_record item"
  shows "name_line item = Inr (''TagName: '' @ py_str (lookup_or_none item ''tagName'') @ [LF])"
  using assms by (elim is_recordE) (simp add: name_line_def attempt_def)

lemma context_line_record:
  assumes "is_record item"
  shows "context_line label key item
           = Inr (label @ py_str (lookup_or_none (lookup_or_none item ''tagContext'') key) @ [LF])"
  using assms by (elim is_recordE) (simp add: context_line_def attempt_def split: option.splits)

lemma txt_item_record:
  assumes "is_record item"
  shows "txt_item item buf = (None, buf @ txt_block item @ [LF])"
  by (simp add: txt_item_def and_then_def write_result_def name_line_record [OF assms]
      context_line_record [OF assms] txt_block_def labels_def cells_def)

lemma for_each_all_appended:
  assumes "\<forall>item\<in>set items. \<forall>buf. body item buf = (None, buf @ text item)"
  shows "for_each body items buf = (None, buf @ concat (map text items))"
  using assms by (induction items arbitrary: buf) simp_all

lemma save_to_txt_records:
  assumes "can_open e filename" and "list_all is_record recs"
  shows "save_to_txt e (JArr recs) filename w
           = (None, w\<lparr>files := (files w)(filename \<mapsto>
                        concat (map (\<lambda>item. txt_block item @ [LF]) recs))\<rparr>)"
proof -
  have "\<forall>item\<in>set recs. \<forall>buf. txt_item item buf = (None, buf @ (txt_block item @ [LF]))"
    using assms(2) by (simp add: list_all_iff txt_item_record)
  then have "for_each txt_item recs [] = (None, [] @ concat (map (\<lambda>item. txt_block item @ [LF]) recs))"
    by (rule for_each_all_appended)
  then show ?thesis using assms(1) by (simp add: save_to_txt_def with_open_def for_in_def)
qed

lemma concat_blocks:
  "bs \<noteq> [] \<Longrightarrow> concat (map (\<lambda>b. b @ sep) bs) = join sep bs @ sep"
  by (induction sep bs rule: join.induct) simp_all

lemma sample_records: "is_record tag1" "is_record tag2"
  by (simp_all add: is_record_def tag1_def tag2_def)

lemma sample_lines:
  "csv_line tag1 = ''Tag1.PV,h1,s1,2024-01-01T00:00:00,2024-06-30T12:00:00''"
  "csv_line tag2 = ''Tag2.PV,h2,,2024-02-01T00:00:00,2024-06-30T12:00:00''"
  by (simp_all add: csv_line_def cells_def tag1_def tag2_def csv_cell_def csv_join_append_def
      csv_field_text_def py_str_def csv_special_def)

lemma sample_blocks:
  "txt_block tag1 = ''TagName: Tag1.PV'' @ [LF] @ ''  HistorianItemId: h1'' @ [LF]
      @ ''  SourceItemId: s1'' @ [LF] @ ''  OldestTimeStamp: 2024-01-01T00:00:00'' @ [LF]
      @ ''  LatestTimeStamp: 2024-06-30T12:00:00'' @ [LF]"
  "txt_block tag2 = ''TagName: Tag2.PV'' @ [LF] @ ''  HistorianItemId: h2'' @ [LF]
      @ ''  SourceItemId: None'' @ [LF] @ ''  OldestTimeStamp: 2024-02-01T00:00:00'' @ [LF]
      @ ''  LatestTimeStamp: 2024-06-30T12:00:00'' @ [LF]"
  by (simp_all add: txt_block_def labels_def cells_def tag1_def tag2_def py_str_def)

lemma for_each_key_errors:
  assumes "\<forall>item\<in>set items. \<forall>buf.
             (if ok item then fst (body item buf) = None
              else \<exists>k\<in>K. fst (body item buf) = Some (KeyError k))"
  shows "if \<forall>item\<in>set items. ok item then fst (for_each body items buf) = None
         else \<exists>k\<in>K. fst (for_each body items buf) = Some (KeyError k)"
  using assms
proof (induction items arbitrary: buf)
  case Nil
  then show ?case by simp
next
  case (Cons item items)
  show ?case
  proof (cases "ok item")
    case True
    then have "fst (body item buf) = None" using Cons.prems by simp
    then obtain buf1 where "body item buf = (None, buf1)" by (cases "body item buf") simp
    then show ?thesis using Cons.IH [of buf1] Cons.prems True by simp
  next
    case False
    then have "\<exists>k\<in>K. fst (body item buf) = Some (KeyError k)"
      using Cons.prems by simp
    then obtain k where "k \<in> K" "fst (body item buf) = Some (KeyError k)"
      by blast
    then show ?thesis using False by (cases "body item buf") auto
  qed
qed

lemma record_like_complete: "record_like item \<Longrightarrow> complete item \<Longrightarrow> is_record item"
  by (simp add: record_like_def complete_def is_record_def)

lemma csv_item_incomplete:
  assumes "record_like item" and "\<not> complete item"
  shows "\<exists>k\<in>{''tagName'', ''tagContext''}. csv_item item = Inl (KeyError k)"
proof -
  obtain kvs where item: "item = JObj kvs" using assms(1)
    by (cases item) (simp_all add: record_like_def)
  show ?thesis using assms(2) unfolding item
    by (auto simp: csv_item_def attempt_def complete_def split: option.splits)
qed

lemma txt_item_incomplete:
  assumes "record_like item" and "\<not> complete item"
  shows "\<exists>k\<in>{''tagName'', ''tagContext''}. fst (txt_item item buf) = Some (KeyError k)"
proof -
  obtain kvs where item: "item = JObj kvs" using assms(1)
    by (cases item) (simp_all add: record_like_def)
  show ?thesis using assms(2) unfolding item
    by (auto simp: txt_item_def name_line_def context_line_def attempt_def complete_def
        and_then_def write_result_def split: option.splits)
qed

lemma save_to_csv_fst:
  "can_open e filename \<Longrightarrow>
   fst (save_to_csv e (JArr recs) filename w)
     = fst (for_each (\<lambda>item. write_result (csv_item item)) recs (terminated header_line))"
  by (simp add: save_to_csv_def with_open_def and_then_def writeheader write_result_def for_in_def
      split: prod.splits)

lemma save_to_txt_fst:
  "can_open e filename \<Longrightarrow>
   fst (save_to_txt e (JArr recs) filename w) = fst (for_each txt_item recs [])"
  by (simp add: save_to_txt_def with_open_def for_in_def split: prod.splits)

section \<open>The CSV and text formats\<close>

text \<open>
  C6. For a result set of records in which no cell has a line feed, \<^verbatim>\<open>save_to_csv\<close>
  writes the header line with the five column names in their fixed order and then one
  line per record, each ended by carriage return and line feed: the file has one line
  more than there are records.
\<close>

theorem save_to_csv_line_count:
  assumes "can_open e filename"
    and "list_all is_record recs"
    and "\<forall>item\<in>set recs. \<forall>v\<in>set (cells item). LF \<notin> set (csv_field_text v)"
  shows "\<exists>text. save_to_csv e (JArr recs) filename w = (None, w\<lparr>files := (files w)(filename \<mapsto> text)\<rparr>)
           \<and> text = concat (map terminated (header_line # map csv_line recs))
           \<and> (\<forall>l\<in>set (header_line # map csv_line recs). LF \<notin> set l)
           \<and> line_count text = length recs + 1"
proof -
  let ?ls = "header_line # map csv_line recs"
  have free: "\<forall>l\<in>set ?ls. LF \<notin> set l"
    using assms(3) by (auto simp: csv_line_no_LF header_line_def)
  then have "line_count (concat (map terminated ?ls)) = length ?ls"
    by (rule line_count_terminated)
  then show ?thesis
    using save_to_csv_records [OF assms(1,2)] free by simp
qed

theorem save_to_csv_line_count_witness:
  "save_to_csv offline (JArr [tag1, tag2]) ''out.csv'' fresh
     = (None, fresh\<lparr>files := (files fresh)(''out.csv'' \<mapsto>
          ''tagName,historianItemId,sourceItemId,oldestTimeStamp,latestTimeStamp'' @ [CR, LF]
          @ ''Tag1.PV,h1,s1,2024-01-01T00:00:00,2024-06-30T12:00:00'' @ [CR, LF]
          @ ''Tag2.PV,h2,,2024-02-01T00:00:00,2024-06-30T12:00:00'' @ [CR, LF])\<rparr>)
   \<and> line_count
         (''tagName,historianItemId,sourceItemId,oldestTimeStamp,latestTimeStamp'' @ [CR, LF]
          @ ''Tag1.PV,h1,s1,2024-01-01T00:00:00,2024-06-30T12:00:00'' @ [CR, LF]
          @ ''Tag2.PV,h2,,2024-02-01T00:00:00,2024-06-30T12:00:00'' @ [CR, LF]) = 3"
proof -
  have "can_open offline ''out.csv''" by (simp add: offline_def)
  moreover have "list_all is_record [tag1, tag2]" by (simp add: sample_records)
  moreover have "\<forall>item\<in>set [tag1, tag2]. \<forall>v\<in>set (cells item). LF \<notin> set (csv_field_text v)"
    by (simp add: cells_def tag1_def tag2_def csv_field_text_def py_str_def)
  ultimately show ?thesis
    using save_to_csv_line_count [of offline "''out.csv''" "[tag1, tag2]" fresh]
    by (simp add: sample_lines header_line_def terminated_def)
qed

text \<open>
  C8. For a non-empty result set of records, \<^verbatim>\<open>save_to_txt\<close> writes one block per
  record, the five labelled lines in the order of the CSV columns, with an empty line
  between consecutive blocks and an empty line after the last.
\<close>

theorem save_to_txt_blocks:
  assumes "can_open e filename"
    and "recs \<noteq> []"
    and "list_all is_record recs"
  shows "save_to_txt e (JArr recs) filename w
           = (None, w\<lparr>files := (files w)(filename \<mapsto> txt_layout recs)\<rparr>)
         \<and> (\<forall>item\<in>set recs. txt_block item =
               ''TagName: '' @ py_str (cells item ! 0) @ [LF]
               @ ''  HistorianItemId: '' @ py_str (cells item ! 1) @ [LF]
               @ ''  SourceItemId: '' @ py_str (cells item ! 2) @ [LF]
               @ ''  OldestTimeStamp: '' @ py_str (cells item ! 3) @ [LF]
               @ ''  LatestTimeStamp: '' @ py_str (cells item ! 4) @ [LF])"
proof -
  have "concat (map (\<lambda>item. txt_block item @ [LF]) recs) = txt_layout recs"
    using concat_blocks [of "map txt_block recs" "[LF]"] assms(2)
    by (simp add: txt_layout_def comp_def)
  then have "save_to_txt e (JArr recs) filename w
           = (None, w\<lparr>files := (files w)(filename \<mapsto> txt_layout recs)\<rparr>)"
    using save_to_txt_records [OF assms(1,3)] by simp
  moreover have "\<forall>item\<in>set recs. txt_block item =
               ''TagName: '' @ py_str (cells item ! 0) @ [LF]
               @ ''  HistorianItemId: '' @ py_str (cells item ! 1) @ [LF]
               @ ''  SourceItemId: '' @ py_str (cells item ! 2) @ [LF]
               @ ''  OldestTimeStamp: '' @ py_str (cells item ! 3) @ [LF]
               @ ''  LatestTimeStamp: '' @ py_str (cells item ! 4) @ [LF]"
    by (simp add: txt_block_def labels_def cells_def)
  ultimately show ?thesis by blast
qed

theorem save_to_txt_blocks_witness:
  "save_to_txt offline (JArr [tag1, tag2]) ''out.txt'' fresh
     = (None, fresh\<lparr>files := (files fresh)(''out.txt'' \<mapsto>
          ''TagName: Tag1.PV'' @ [LF] @ ''  HistorianItemId: h1'' @ [LF]
          @ ''  SourceItemId: s1'' @ [LF] @ ''  OldestTimeStamp: 2024-01-01T00:00:00'' @ [LF]
          @ ''  LatestTimeStamp: 2024-06-30T12:00:00'' @ [LF]
          @ [LF]
          @ ''TagName: Tag2.PV'' @ [LF] @ ''  HistorianItemId: h2'' @ [LF]
          @ ''  SourceItemId: None'' @ [LF] @ ''  OldestTimeStamp: 2024-02-01T00:00:00'' @ [LF]
          @ ''  LatestTimeStamp: 2024-06-30T12:00:00'' @ [LF]
          @ [LF])\<rparr>)"
proof -
  have "can_open offline ''out.txt''" by (simp add: offline_def)
  moreover have "list_all is_record [tag1, tag2]" by (simp add: sample_records)
  ultimately show ?thesis
    using save_to_txt_blocks [of offline "''out.txt''" "[tag1, tag2]" fresh]
    by (simp add: txt_layout_def sample_blocks)
qed

text \<open>
  C9, as the code has it. On a list of record-like items (dictionaries whose
  \<^verbatim>\<open>tagContext\<close>, if present, is a dictionary), \<^verbatim>\<open>save_to_csv\<close> and
  \<^verbatim>\<open>save_to_txt\<close> return normally exactly when every item has both the key
  \<^verbatim>\<open>tagName\<close> and the key \<^verbatim>\<open>tagContext\<close>; when an item lacks
  \<^verbatim>\<open>tagContext\<close> (or \<^verbatim>\<open>tagName\<close>), both raise \<^verbatim>\<open>KeyError\<close> for one of
  the two keys.
\<close>

theorem formatters_need_both_keys:
  assumes "can_open e filename" and "list_all record_like recs"
  shows "if \<forall>item\<in>set recs. complete item
         then fst (save_to_csv e (JArr recs) filename w) = None
              \<and> fst (save_to_txt e (JArr recs) filename w) = None
         else (\<exists>k\<in>{''tagName'', ''tagContext''}.
                 fst (save_to_csv e (JArr recs) filename w) = Some (KeyError k))
              \<and> (\<exists>k\<in>{''tagName'', ''tagContext''}.
                 fst (save_to_txt e (JArr recs) filename w) = Some (KeyError k))"
proof -
  let ?K = "{''tagName'', ''tagContext''}"
  have csv_ok: "\<forall>item\<in>set recs. \<forall>buf.
      (if complete item then fst (write_result (csv_item item) buf) = None
       else \<exists>k\<in>?K. fst (write_result (csv_item item) buf) = Some (KeyError k))"
  proof (intro ballI allI)
    fix item buf
    assume "item \<in> set recs"
    then have rl: "record_like item" using assms(2) by (simp add: list_all_iff)
    show "if complete item then fst (write_result (csv_item item) buf) = None
          else \<exists>k\<in>?K. fst (write_result (csv_item item) buf) = Some (KeyError k)"
    proof (cases "complete item")
      case True
      then show ?thesis
        using csv_item_record [OF record_like_complete [OF rl True]] by (simp add: write_result_def)
    next
      case False
      then show ?thesis using csv_item_incomplete [OF rl False] by (auto simp: write_result_def)
    qed
  qed
  have txt_ok: "\<forall>item\<in>set recs. \<forall>buf.
      (if complete item then fst (txt_item item buf) = None
       else \<exists>k\<in>?K. fst (txt_item item buf) = Some (KeyError k))"
  proof (intro ballI allI)
    fix item buf
    assume "item \<in> set recs"
    then have rl: "record_like item" using assms(2) by (simp add: list_all_iff)
    show "if complete item then fst (txt_item item buf) = None
          else \<exists>k\<in>?K. fst (txt_item item buf) = Some (KeyError k)"
    proof (cases "complete item")
      case True
      then show ?thesis
        using txt_item_record [OF record_like_complete [OF rl True]] by simp
    next
      case False
      then show ?thesis using txt_item_incomplete [OF rl False] by simp
    qed
  qed
  show ?thesis
    using for_each_key_errors [OF csv_ok, of "terminated header_line"] for_each_key_errors [OF txt_ok, of "[]"]
    unfolding save_to_csv_fst [OF assms(1)] save_to_txt_fst [OF assms(1)]
    by (cases "\<forall>item\<in>set recs. complete item") auto
qed

theorem formatters_need_both_keys_witness:
  "fst (save_to_csv offline (JArr [tag1, tag2]) ''out'' fresh) = None
   \<and> fst (save_to_txt offline (JArr [tag1, tag2]) ''out'' fresh) = None
   \<and> (\<exists>k\<in>{''tagName'', ''tagContext''}.
         fst (save_to_csv offline (JArr [tag1, tag3]) ''out'' fresh) = Some (KeyError k))
   \<and> (\<exists>k\<in>{''tagName'', ''tagContext''}.
         fst (save_to_txt offline (JArr [tag1, tag3]) ''out'' fresh) = Some (KeyError k))"
proof -
  have o: "can_open offline ''out''" by (simp add: offline_def)
  have r: "list_all record_like [tag1, tag2]" "list_all record_like [tag1, tag3]"
    by (simp_all add: record_like_def tag1_def tag2_def tag3_def)
  show ?thesis
    using formatters_need_both_keys [OF o r(1), of fresh] formatters_need_both_keys [OF o r(2), of fresh]
    by (simp add: complete_def tag1_def tag2_def tag3_def)
qed

text \<open>
  A list in which a record with \<^verbatim>\<open>tagContext\<close> \<^verbatim>\<open>None\<close> stands before a record
  without \<^verbatim>\<open>tagContext\<close>: both formatters raise \<^verbatim>\<open>AttributeError\<close> at the
  first record, not a key-lookup error.
\<close>

theorem formatters_context_not_an_object:
  "\<not> has_key tag3 ''tagContext''
   \<and> fst (save_to_csv offline (JArr [tag4, tag3]) ''out.csv'' fresh) = Some AttributeError
   \<and> fst (save_to_txt offline (JArr [tag4, tag3]) ''out.txt'' fresh) = Some AttributeError"
  by (simp add: tag3_def tag4_def save_to_csv_fst save_to_txt_fst offline_def csv_item_def
      txt_item_def name_line_def context_line_def attempt_def write_result_def and_then_def)

text \<open>The whole run on a server with two tags, the second without
  \<^verbatim>\<open>sourceItemId\<close>: a CSV file of three lines, the third with an empty third cell.\<close>

lemma end_to_end_csv:
  "main (serving (JObj [(''tags'', JArr [JStr ''Tag1.PV'', JStr ''Tag2.PV''])])
                 (JObj [(''data'', JArr [tag1, tag2])]))
      ''https://h'' ''api/v2'' ''token'' ''app'' ''tz'' ''csv'' ''out.csv'' fresh
     = (None,
        \<lparr>sent = [post (browse_url ''https://h'' ''api/v2'') (browse_payload ''app'' ''tz'' ''token''),
                 post (context_url ''https://h'' ''api/v2'')
                   (context_payload ''token'' (JArr [JStr ''Tag1.PV'', JStr ''Tag2.PV'']))],
         files = (\<lambda>name. None)(''out.csv'' \<mapsto>
           ''tagName,historianItemId,sourceItemId,oldestTimeStamp,latestTimeStamp'' @ [CR, LF]
           @ ''Tag1.PV,h1,s1,2024-01-01T00:00:00,2024-06-30T12:00:00'' @ [CR, LF]
           @ ''Tag2.PV,h2,,2024-02-01T00:00:00,2024-06-30T12:00:00'' @ [CR, LF]),
         stdout = [''Data saved to out.csv in csv format.'']\<rparr>)"
proof -
  let ?e = "serving (JObj [(''tags'', JArr [JStr ''Tag1.PV'', JStr ''Tag2.PV''])])
                    (JObj [(''data'', JArr [tag1, tag2])])"
  have o: "can_open ?e ''out.csv''" by (simp add: serving_def)
  have r: "list_all is_record [tag1, tag2]" by (simp add: sample_records)
  show ?thesis
    by (simp add: main_def serving_tags serving_context dispatch_def
        save_to_csv_records [OF o r] sample_lines header_line_def terminated_def print_def)
qed

section \<open>Encoding and reading back\<close>

lemma of_char_digit_char: "d < 10 \<Longrightarrow> (of_char (digit_char d) :: nat) = 48 + d"
  by (simp add: digit_char_def)

lemma is_digit_digit_char: "d < 10 \<Longrightarrow> is_digit (digit_char d)"
  by (simp add: is_digit_def of_char_digit_char)

lemma digit_val_digit_char: "d < 10 \<Longrightarrow> digit_val (digit_char d) = d"
  by (simp add: digit_val_def of_char_digit_char)

lemma str_nat_nonempty: "str_nat n \<noteq> []"
  by (subst str_nat.simps) simp

lemma str_nat_digits: "list_all is_digit (str_nat n)"
proof (induction n rule: str_nat.induct)
  case (1 n)
  show ?case
    by (subst str_nat.simps) (use 1 in \<open>simp add: is_digit_digit_char\<close>)
qed

lemma nat_of_digits_snoc: "nat_of_digits (ds @ [c]) = 10 * nat_of_digits ds + digit_val c"
  by (simp add: nat_of_digits_def)

lemma nat_of_digits_str_nat: "nat_of_digits (str_nat n) = n"
proof (induction n rule: str_nat.induct)
  case (1 n)
  show ?case
  proof (cases "n < 10")
    case True
    then show ?thesis
      by (subst str_nat.simps) (simp add: nat_of_digits_def digit_val_digit_char)
  next
    case False
    then show ?thesis
      by (subst str_nat.simps) (simp add: nat_of_digits_snoc 1 digit_val_digit_char)
  qed
qed

lemma str_nat_small: "n < 10 \<Longrightarrow> str_nat n = [digit_char n]"
  by (subst str_nat.simps) simp

lemma hd_str_nat: "0 < n \<Longrightarrow> hd (str_nat n) \<noteq> CHR ''0''"
proof (induction n rule: str_nat.induct)
  case (1 n)
  show ?case
  proof (cases "n < 10")
    case True
    have "(of_char (digit_char n) :: nat) \<noteq> of_char CHR ''0''"
      using True 1(2) by (simp add: of_char_digit_char)
    then have "digit_char n \<noteq> CHR ''0''" by auto
    then show ?thesis using True by (simp add: str_nat_small)
  next
    case False
    then have "hd (str_nat (n div 10)) \<noteq> CHR ''0''" using 1 by simp
    then show ?thesis using False
      by (subst str_nat.simps) (simp add: str_nat_nonempty)
  qed
qed

lemma no_leading_zero: "\<not> (hd (str_nat n) = CHR ''0'' \<and> length (str_nat n) > 1)"
proof (cases "n < 10")
  case True
  then show ?thesis by (simp add: str_nat_small)
next
  case False
  then show ?thesis using hd_str_nat [of n] by simp
qed

lemma takeWhile_digits:
  assumes "list_all is_digit ds" and "rest = [] \<or> \<not> is_digit (hd rest)"
  shows "takeWhile is_digit (ds @ rest) = ds" and "dropWhile is_digit (ds @ rest) = rest"
proof -
  have "takeWhile is_digit rest = []" "dropWhile is_digit rest = rest"
    using assms(2) by (cases rest; simp)+
  then show "takeWhile is_digit (ds @ rest) = ds" and "dropWhile is_digit (ds @ rest) = rest"
    using assms(1) by (induction ds) simp_all
qed

lemma minus_no_digit: "\<not> is_digit CHR ''-''"
  by (simp add: is_digit_def)

lemma hd_str_nat_not_minus: "hd (str_nat n) \<noteq> CHR ''-''"
  using str_nat_digits [of n] str_nat_nonempty [of n] minus_no_digit
  by (cases "str_nat n") auto

lemma scan_number_str_int:
  assumes "delimited rest"
  shows "scan_number (str_int i @ rest) = Some (JInt i, rest)"
proof -
  have d: "rest = [] \<or> \<not> is_digit (hd rest)" using assms by (auto simp: delimited_def)
  have e: "\<not> (rest \<noteq> [] \<and> hd rest \<in> {CHR ''.'', CHR ''e'', CHR ''E''})"
    using assms by (auto simp: delimited_def)
  show ?thesis
  proof (cases "i < 0")
    case True
    let ?n = "nat (- i)"
    have s: "str_int i @ rest = CHR ''-'' # (str_nat ?n @ rest)" using True by (simp add: str_int_def)
    show ?thesis unfolding s scan_number_def
      using True e no_leading_zero [of ?n]
      by (auto simp: Let_def takeWhile_digits [OF str_nat_digits d] str_nat_nonempty nat_of_digits_str_nat)
  next
    case False
    let ?n = "nat i"
    have s: "str_int i @ rest = str_nat ?n @ rest" using False by (simp add: str_int_def)
    have "hd (str_nat ?n @ rest) \<noteq> CHR ''-''"
      using hd_str_nat_not_minus [of ?n] str_nat_nonempty [of ?n] by simp
    then show ?thesis unfolding s scan_number_def
      using False e no_leading_zero [of ?n]
      by (auto simp: Let_def takeWhile_digits [OF str_nat_digits d] str_nat_nonempty nat_of_digits_str_nat)
  qed
qed

lemma hex_val_hex_digit: "d < 16 \<Longrightarrow> hex_val (hex_digit d) = Some d"
  by (simp add: hex_val_def hex_digit_def Let_def)

lemma of_char_less_256: "(of_char c :: nat) < 256"
  by (cases c) simp

lemma hex4_hex2:
  "hex2 c = [a, b] \<Longrightarrow> hex4 CHR ''0'' CHR ''0'' a b = Some (of_char c)"
proof -
  assume h: "hex2 c = [a, b]"
  let ?n = "of_char c :: nat"
  have "?n < 256" by (rule of_char_less_256)
  then have "?n div 16 < 16" "?n mod 16 < 16" by arith+
  moreover have "a = hex_digit (?n div 16)" "b = hex_digit (?n mod 16)"
    using h by (simp_all add: hex2_def)
  ultimately have "hex_val a = Some (?n div 16)" "hex_val b = Some (?n mod 16)"
    by (simp_all add: hex_val_hex_digit)
  moreover have "hex_val CHR ''0'' = Some 0" by (simp add: hex_val_def)
  ultimately show ?thesis by simp
qed

lemma scan_string_escape:
  "scan_string (escape_ascii c @ tail) = prepend c (scan_string tail)"
proof -
  consider (short) "c \<in> {DQ, BSL, LF, CR, CHR 0x09, CHR 0x08, CHR 0x0C}"
    | (plain) "c \<notin> {DQ, BSL, LF, CR, CHR 0x09, CHR 0x08, CHR 0x0C}"
        "32 \<le> (of_char c :: nat) \<and> (of_char c :: nat) \<le> 126"
    | (hex) "c \<notin> {DQ, BSL, LF, CR, CHR 0x09, CHR 0x08, CHR 0x0C}"
        "\<not> (32 \<le> (of_char c :: nat) \<and> (of_char c :: nat) \<le> 126)"
    by blast
  then show ?thesis
  proof cases
    case short
    then show ?thesis by (auto simp: escape_ascii_def unescape_def)
  next
    case plain
    then show ?thesis by (simp add: escape_ascii_def)
  next
    case hex
    obtain a b where ab: "hex2 c = [a, b]" by (simp add: hex2_def)
    have "escape_ascii c = [BSL, CHR ''u'', CHR ''0'', CHR ''0'', a, b]"
      using hex ab by (simp add: escape_ascii_def)
    then show ?thesis
      using hex4_hex2 [OF ab] of_char_less_256 [of c] by simp
  qed
qed

lemma scan_string_encoded:
  "scan_string (concat (map escape_ascii s) @ DQ # rest) = Some (s, rest)"
  by (induction s) (simp_all add: scan_string_escape prepend_def)

lemma skip_ws_prefix:
  assumes "list_all is_ws ws" and "s = [] \<or> \<not> is_ws (hd s)"
  shows "skip_ws (ws @ s) = s"
proof -
  have "dropWhile is_ws s = s" using assms(2) by (cases s) auto
  then show ?thesis using assms(1) by (induction ws) (simp_all add: skip_ws_def)
qed

lemma skip_ws_Cons: "\<not> is_ws c \<Longrightarrow> list_all is_ws ws \<Longrightarrow> skip_ws (ws @ c # s) = c # s"
  by (rule skip_ws_prefix) simp_all

lemma ws_newline_indent: "list_all is_ws (newline_indent ind lvl)"
  by (cases ind) (simp_all add: newline_indent_def is_ws_def list_all_iff)

lemma str_int_start: "\<exists>c cs. str_int i = c # cs \<and> (c = CHR ''-'' \<or> is_digit c)"
proof (cases "i < 0")
  case True
  then show ?thesis by (simp add: str_int_def)
next
  case False
  obtain c cs where "str_nat (nat i) = c # cs" using str_nat_nonempty by (cases "str_nat (nat i)") auto
  moreover have "is_digit c" using str_nat_digits [of "nat i"] calculation by simp
  ultimately show ?thesis using False by (simp add: str_int_def)
qed

lemma iterencode_start: "\<exists>c cs. iterencode ind lvl v = c # cs \<and> value_start c"
proof (cases v)
  case (JInt i)
  then show ?thesis using str_int_start [of i] by (auto simp: value_start_def)
qed (auto simp: value_start_def encode_basestring_ascii_def)

lemma value_start_not_ws: "value_start c \<Longrightarrow> \<not> is_ws c"
  by (auto simp: value_start_def is_ws_def is_digit_def)

lemma value_start_not_close: "value_start c \<Longrightarrow> c \<noteq> CHR '']'' \<and> c \<noteq> CHR ''}''"
  by (auto simp: value_start_def is_digit_def)

lemma delimited_Cons:
  "c \<in> {CHR '','', CHR '']'', CHR ''}'', LF} \<Longrightarrow> delimited (c # s)"
  by (auto simp: delimited_def is_digit_def)

lemma delimited_ws: "list_all is_ws ws \<Longrightarrow> c \<in> {CHR '']'', CHR ''}''} \<Longrightarrow> delimited (ws @ c # s)"
  by (cases ws) (auto simp: delimited_def is_digit_def is_ws_def)

lemma not_ws:
  "\<not> is_ws CHR '']''" "\<not> is_ws CHR ''}''" "\<not> is_ws DQ" "\<not> is_ws CHR '',''" "\<not> is_ws CHR '':''"
  by (simp_all add: is_ws_def)

lemma parse_elements_joined:
  assumes ih: "\<And>x n ws rest. x \<in> set xs \<Longrightarrow> length (enc x) \<le> n \<Longrightarrow> list_all is_ws ws
                  \<Longrightarrow> delimited rest \<Longrightarrow> parse_value n (ws @ enc x @ rest) = Some (x, rest)"
    and "xs \<noteq> []"
    and "length (join (CHR '','' # ws1) (map enc xs)) < n"
    and "list_all is_ws ws" and "list_all is_ws ws0" and "list_all is_ws ws1"
  shows "parse_elements n (ws @ join (CHR '','' # ws1) (map enc xs) @ ws0 @ CHR '']'' # rest)
           = Some (xs, rest)"
  using assms
proof (induction xs arbitrary: n ws)
  case Nil
  then show ?case by simp
next
  case (Cons x xs)
  obtain m where n: "n = Suc m" using Cons.prems(3) by (cases n) auto
  show ?case
  proof (cases xs)
    case Nil
    have len: "length (enc x) \<le> m" using Cons.prems(3) n Nil by simp
    have "parse_value m (ws @ enc x @ (ws0 @ CHR '']'' # rest)) = Some (x, ws0 @ CHR '']'' # rest)"
      using Cons.prems(1) [of x m ws] len Cons.prems(4,5) by (simp add: delimited_ws)
    moreover have "skip_ws (ws0 @ CHR '']'' # rest) = CHR '']'' # rest"
      using Cons.prems(5) by (simp add: skip_ws_Cons not_ws)
    ultimately show ?thesis using Nil n by simp
  next
    case (Cons y ys)
    let ?tail = "join (CHR '','' # ws1) (map enc xs) @ ws0 @ CHR '']'' # rest"
    have len: "length (enc x) \<le> m" "length (join (CHR '','' # ws1) (map enc xs)) < m"
      using Cons.prems(3) n Cons by simp_all
    have "parse_value m (ws @ enc x @ (CHR '','' # ws1 @ ?tail)) = Some (x, CHR '','' # ws1 @ ?tail)"
      using Cons.prems(1) [of x m ws] len Cons.prems(4) by (simp add: delimited_Cons)
    moreover have "skip_ws (CHR '','' # ws1 @ ?tail) = CHR '','' # ws1 @ ?tail"
      by (simp add: skip_ws_def is_ws_def)
    moreover have "parse_elements m (ws1 @ ?tail) = Some (xs, rest)"
      using Cons.IH [of m ws1] Cons.prems(1,5,6) len Cons by simp
    ultimately show ?thesis using Cons n by (simp add: prepend_def)
  qed
qed

lemma parse_members_joined:
  assumes ih: "\<And>kv n ws rest. kv \<in> set kvs \<Longrightarrow> length (enc (snd kv)) \<le> n \<Longrightarrow> list_all is_ws ws
                  \<Longrightarrow> delimited rest \<Longrightarrow> parse_value n (ws @ enc (snd kv) @ rest) = Some (snd kv, rest)"
    and "kvs \<noteq> []"
    and "length (join (CHR '','' # ws1)
            (map (\<lambda>kv. encode_basestring_ascii (fst kv) @ '': '' @ enc (snd kv)) kvs)) < n"
    and "list_all is_ws ws" and "list_all is_ws ws0" and "list_all is_ws ws1"
  shows "parse_members n (ws @ join (CHR '','' # ws1)
            (map (\<lambda>kv. encode_basestring_ascii (fst kv) @ '': '' @ enc (snd kv)) kvs)
            @ ws0 @ CHR ''}'' # rest) = Some (kvs, rest)"
  using assms
proof (induction kvs arbitrary: n ws)
  case Nil
  then show ?case by simp
next
  case (Cons kv kvs)
  obtain m where n: "n = Suc m" using Cons.prems(3) by (cases n) auto
  obtain k v where kv: "kv = (k, v)" by (cases kv)
  let ?item = "\<lambda>kv. encode_basestring_ascii (fst kv) @ '': '' @ enc (snd kv)"
  have key: "\<And>tail. skip_ws (ws @ encode_basestring_ascii k @ tail)
                 = DQ # concat (map escape_ascii k) @ DQ # tail"
    using Cons.prems(4) by (simp add: encode_basestring_ascii_def skip_ws_Cons not_ws)
  have colon: "\<And>tail. skip_ws ('': '' @ tail) = CHR '':'' # CHR '' '' # tail"
    by (simp add: skip_ws_def is_ws_def)
  have sp: "list_all is_ws '' ''" by (simp add: is_ws_def)
  show ?case
  proof (cases kvs)
    case Nil
    have len: "length (enc v) \<le> m" using Cons.prems(3) n Nil kv by simp
    have "parse_value m ('' '' @ enc v @ (ws0 @ CHR ''}'' # rest)) = Some (v, ws0 @ CHR ''}'' # rest)"
      using Cons.prems(1) [of kv m "'' ''"] len Cons.prems(5) sp kv by (simp add: delimited_ws)
    moreover have "skip_ws (ws0 @ CHR ''}'' # rest) = CHR ''}'' # rest"
      using Cons.prems(5) by (simp add: skip_ws_Cons not_ws)
    ultimately show ?thesis using Nil n kv key colon by (simp add: scan_string_encoded)
  next
    case (Cons kv2 kvs2)
    let ?tail = "join (CHR '','' # ws1) (map ?item kvs) @ ws0 @ CHR ''}'' # rest"
    have len: "length (enc v) \<le> m" "length (join (CHR '','' # ws1) (map ?item kvs)) < m"
      using Cons.prems(3) n Cons kv by simp_all
    have "parse_value m ('' '' @ enc v @ (CHR '','' # ws1 @ ?tail)) = Some (v, CHR '','' # ws1 @ ?tail)"
      using Cons.prems(1) [of kv m "'' ''"] len sp kv by (simp add: delimited_Cons)
    moreover have "skip_ws (CHR '','' # ws1 @ ?tail) = CHR '','' # ws1 @ ?tail"
      by (simp add: skip_ws_def is_ws_def)
    moreover have "parse_members m (ws1 @ ?tail) = Some (kvs, rest)"
      using Cons.IH [of m ws1] Cons.prems(1,5,6) len Cons by simp
    ultimately show ?thesis using Cons n kv key colon
      by (simp add: scan_string_encoded prepend_def)
  qed
qed

lemma dict_set_fresh: "k \<notin> fst ` set d \<Longrightarrow> dict_set k v d = d @ [(k, v)]"
  by (induction d) auto

lemma dict_fold_distinct:
  "distinct (map fst (acc @ kvs))
     \<Longrightarrow> foldl (\<lambda>d kv. dict_set (fst kv) (snd kv) d) acc kvs = acc @ kvs"
proof (induction kvs arbitrary: acc)
  case Nil
  then show ?case by simp
next
  case (Cons kv kvs)
  have "fst kv \<notin> fst ` set acc" using Cons.prems by auto
  then have "dict_set (fst kv) (snd kv) acc = acc @ [kv]" by (simp add: dict_set_fresh)
  then show ?case using Cons.IH [of "acc @ [kv]"] Cons.prems by simp
qed

lemma dict_of_distinct: "distinct (map fst kvs) \<Longrightarrow> dict_of kvs = kvs"
  using dict_fold_distinct [of "[]" kvs] by (simp add: dict_of_def)

lemma separator_shape:
  "\<exists>ws1. item_separator ind @ newline_indent ind l = CHR '','' # ws1 \<and> list_all is_ws ws1"
  by (cases ind) (simp_all add: item_separator_def newline_indent_def is_ws_def list_all_iff)

lemma join_head: "ls \<noteq> [] \<Longrightarrow> hd ls \<noteq> [] \<Longrightarrow> hd (join sep ls @ tail) = hd (hd ls)"
  by (induction sep ls rule: join.induct) simp_all

lemma join_nonempty: "ls \<noteq> [] \<Longrightarrow> hd ls \<noteq> [] \<Longrightarrow> join sep ls \<noteq> []"
  by (induction sep ls rule: join.induct) simp_all

lemma skip_ws_joined:
  assumes "ls \<noteq> []" and "hd ls \<noteq> []" and "\<not> is_ws (hd (hd ls))" and "list_all is_ws ws"
  shows "skip_ws (ws @ join sep ls @ tail) = join sep ls @ tail"
    and "join sep ls @ tail = hd (hd ls) # tl (join sep ls @ tail)"
proof -
  have ne: "join sep ls @ tail \<noteq> []" using join_nonempty [OF assms(1,2)] by simp
  have h: "hd (join sep ls @ tail) = hd (hd ls)" by (rule join_head [OF assms(1,2)])
  show "skip_ws (ws @ join sep ls @ tail) = join sep ls @ tail"
    using assms(3,4) h by (intro skip_ws_prefix) simp_all
  show "join sep ls @ tail = hd (hd ls) # tl (join sep ls @ tail)"
    using ne h by (metis list.collapse)
qed

lemma parse_value_step:
  assumes "skip_ws s = c # cs"
  shows "parse_value (Suc m) s =
          (if c = CHR ''['' then
            (case skip_ws cs of
               [] \<Rightarrow> None
             | d # r \<Rightarrow>
                 if d = CHR '']'' then Some (JArr [], r)
                 else (case parse_elements m cs of
                         None \<Rightarrow> None | Some (xs, rest) \<Rightarrow> Some (JArr xs, rest)))
          else if c = CHR ''{'' then
            (case skip_ws cs of
               [] \<Rightarrow> None
             | d # r \<Rightarrow>
                 if d = CHR ''}'' then Some (JObj [], r)
                 else (case parse_members m cs of
                         None \<Rightarrow> None | Some (kvs, rest) \<Rightarrow> Some (JObj (dict_of kvs), rest)))
          else if c = DQ then
            (case scan_string cs of None \<Rightarrow> None | Some (str, rest) \<Rightarrow> Some (JStr str, rest))
          else if starts_with ''null'' (c # cs) then Some (JNull, drop 4 (c # cs))
          else if starts_with ''true'' (c # cs) then Some (JBool True, drop 4 (c # cs))
          else if starts_with ''false'' (c # cs) then Some (JBool False, drop 5 (c # cs))
          else scan_number (c # cs))"
  using assms by simp

lemma parse_scalar:
  assumes "list_all is_ws ws" and "delimited rest" and "0 < n"
  shows "parse_value n (ws @ ''null'' @ rest) = Some (JNull, rest)"
    and "parse_value n (ws @ ''true'' @ rest) = Some (JBool True, rest)"
    and "parse_value n (ws @ ''false'' @ rest) = Some (JBool False, rest)"
    and "parse_value n (ws @ str_int i @ rest) = Some (JInt i, rest)"
    and "parse_value n (ws @ encode_basestring_ascii s @ rest) = Some (JStr s, rest)"
proof -
  obtain m where n: "n = Suc m" using assms(3) by (cases n) auto
  have ws: "\<not> is_ws CHR ''n''" "\<not> is_ws CHR ''t''" "\<not> is_ws CHR ''f''"
    by (simp_all add: is_ws_def)
  show "parse_value n (ws @ ''null'' @ rest) = Some (JNull, rest)"
    unfolding n using parse_value_step [of "ws @ ''null'' @ rest" "CHR ''n''" "''ull'' @ rest" m]
      skip_ws_Cons [OF ws(1) assms(1)] by (simp add: starts_with_def)
  show "parse_value n (ws @ ''true'' @ rest) = Some (JBool True, rest)"
    unfolding n using parse_value_step [of "ws @ ''true'' @ rest" "CHR ''t''" "''rue'' @ rest" m]
      skip_ws_Cons [OF ws(2) assms(1)] by (simp add: starts_with_def)
  show "parse_value n (ws @ ''false'' @ rest) = Some (JBool False, rest)"
    unfolding n using parse_value_step [of "ws @ ''false'' @ rest" "CHR ''f''" "''alse'' @ rest" m]
      skip_ws_Cons [OF ws(3) assms(1)] by (simp add: starts_with_def)
  show "parse_value n (ws @ str_int i @ rest) = Some (JInt i, rest)"
  proof -
    obtain c cs where c: "str_int i = c # cs" "c = CHR ''-'' \<or> is_digit c"
      using str_int_start by blast
    have nw: "\<not> is_ws c" using c(2) by (auto simp: is_ws_def is_digit_def)
    have sk: "skip_ws (ws @ str_int i @ rest) = c # (cs @ rest)"
      using skip_ws_Cons [OF nw assms(1)] c(1) by simp
    have ne: "c \<noteq> CHR ''[''" "c \<noteq> CHR ''{''" "c \<noteq> DQ" "c \<noteq> CHR ''n''" "c \<noteq> CHR ''t''" "c \<noteq> CHR ''f''"
      using c(2) by (auto simp: is_digit_def)
    have "parse_value (Suc m) (ws @ str_int i @ rest) = scan_number (c # (cs @ rest))"
      using parse_value_step [OF sk, of m] ne by (simp add: starts_with_def)
    also have "\<dots> = scan_number (str_int i @ rest)" using c(1) by simp
    also have "\<dots> = Some (JInt i, rest)" using assms(2) by (rule scan_number_str_int)
    finally show ?thesis unfolding n .
  qed
  show "parse_value n (ws @ encode_basestring_ascii s @ rest) = Some (JStr s, rest)"
  proof -
    have sk: "skip_ws (ws @ encode_basestring_ascii s @ rest)
                = DQ # (concat (map escape_ascii s) @ DQ # rest)"
      using skip_ws_Cons [OF not_ws(3) assms(1)] by (simp add: encode_basestring_ascii_def)
    show ?thesis unfolding n using parse_value_step [OF sk, of m]
      by (simp add: scan_string_encoded)
  qed
qed

lemma iterencode_nonempty: "iterencode ind lvl v \<noteq> []"
  using iterencode_start [of ind lvl v] by auto

lemma hd_iterencode: "value_start (hd (iterencode ind lvl v))"
  using iterencode_start [of ind lvl v] by auto

lemma parse_value_encoded:
  "wf_json v \<Longrightarrow> length (iterencode ind lvl v) \<le> n \<Longrightarrow> list_all is_ws ws \<Longrightarrow> delimited rest
     \<Longrightarrow> parse_value n (ws @ iterencode ind lvl v @ rest) = Some (v, rest)"
proof (induction ind lvl v arbitrary: n ws rest rule: iterencode.induct)
  case (1 ind lvl)
  then have "0 < n" by (cases n) auto
  then show ?case using 1 parse_scalar(1) [of ws rest n] by simp
next
  case (2 ind lvl b)
  then have "0 < n" by (cases n) (auto split: if_splits)
  then show ?case using 2 parse_scalar(2,3) [of ws rest n] by (cases b) simp_all
next
  case (3 ind lvl i)
  have "0 < n" using 3(2) iterencode_nonempty [of ind lvl "JInt i"] by (cases n) auto
  then show ?case using 3 parse_scalar(4) [of ws rest n i] by simp
next
  case (4 ind lvl s)
  have "0 < n" using 4(2) iterencode_nonempty [of ind lvl "JStr s"] by (cases n) auto
  then show ?case using 4 parse_scalar(5) [of ws rest n s] by simp
next
  case (5 ind lvl xs)
  obtain m where n: "n = Suc m" using 5(3) iterencode_nonempty [of ind lvl "JArr xs"] by (cases n) auto
  have open_ws: "\<not> is_ws CHR ''[''" by (simp add: is_ws_def)
  show ?case
  proof (cases "xs = []")
    case True
    have sk: "skip_ws (ws @ ''[]'' @ rest) = CHR ''['' # CHR '']'' # rest"
      using skip_ws_Cons [OF open_ws 5(4)] by simp
    have "skip_ws (CHR '']'' # rest) = CHR '']'' # rest" by (simp add: skip_ws_def not_ws)
    then show ?thesis using True n parse_value_step [OF sk, of m] by simp
  next
    case False
    let ?enc = "iterencode ind (Suc lvl)"
    let ?nl1 = "newline_indent ind (Suc lvl)"
    let ?nl0 = "newline_indent ind lvl"
    obtain ws1 where sep: "item_separator ind @ ?nl1 = CHR '','' # ws1" and ws1: "list_all is_ws ws1"
      using separator_shape by blast
    let ?J = "join (CHR '','' # ws1) (map ?enc xs)"
    let ?tail = "?nl0 @ CHR '']'' # rest"
    have enc: "iterencode ind lvl (JArr xs) = CHR ''['' # ?nl1 @ ?J @ ?nl0 @ '']''"
      using False sep by simp
    have sk: "skip_ws (ws @ iterencode ind lvl (JArr xs) @ rest) = CHR ''['' # (?nl1 @ ?J @ ?tail)"
      using skip_ws_Cons [OF open_ws 5(4)] enc by simp
    have ls: "map ?enc xs \<noteq> []" "hd (map ?enc xs) \<noteq> []" "value_start (hd (hd (map ?enc xs)))"
      using False by (simp_all add: iterencode_nonempty hd_iterencode hd_map)
    then have nws: "\<not> is_ws (hd (hd (map ?enc xs)))" by (simp add: value_start_not_ws)
    have inner: "skip_ws (?nl1 @ ?J @ ?tail) = hd (hd (map ?enc xs)) # tl (?J @ ?tail)"
      using skip_ws_joined [where ws = ?nl1 and sep = "CHR '','' # ws1" and tail = ?tail,
          OF ls(1,2) nws ws_newline_indent]
      by simp
    have len: "length ?J < m" using 5(3) n enc by simp
    have ih: "\<And>x n ws rest. x \<in> set xs \<Longrightarrow> length (?enc x) \<le> n \<Longrightarrow> list_all is_ws ws
                \<Longrightarrow> delimited rest \<Longrightarrow> parse_value n (ws @ ?enc x @ rest) = Some (x, rest)"
      using 5(1) [OF False] 5(2) by (simp add: list_all_iff)
    have "parse_elements m (?nl1 @ ?J @ ?tail) = Some (xs, rest)"
      using parse_elements_joined [where enc = ?enc, OF ih False len ws_newline_indent ws_newline_indent ws1]
      by simp
    then show ?thesis
      using n parse_value_step [OF sk, of m] inner value_start_not_close [OF ls(3)] by simp
  qed
next
  case (6 ind lvl kvs)
  obtain m where n: "n = Suc m" using 6(3) iterencode_nonempty [of ind lvl "JObj kvs"] by (cases n) auto
  have open_ws: "\<not> is_ws CHR ''{''" by (simp add: is_ws_def)
  show ?case
  proof (cases "kvs = []")
    case True
    have sk: "skip_ws (ws @ ''{}'' @ rest) = CHR ''{'' # CHR ''}'' # rest"
      using skip_ws_Cons [OF open_ws 6(4)] by simp
    have "skip_ws (CHR ''}'' # rest) = CHR ''}'' # rest" by (simp add: skip_ws_def not_ws)
    then show ?thesis using True n parse_value_step [OF sk, of m] by simp
  next
    case False
    let ?enc = "iterencode ind (Suc lvl)"
    let ?item = "\<lambda>kv. encode_basestring_ascii (fst kv) @ '': '' @ ?enc (snd kv)"
    let ?nl1 = "newline_indent ind (Suc lvl)"
    let ?nl0 = "newline_indent ind lvl"
    obtain ws1 where sep: "item_separator ind @ ?nl1 = CHR '','' # ws1" and ws1: "list_all is_ws ws1"
      using separator_shape by blast
    let ?J = "join (CHR '','' # ws1) (map ?item kvs)"
    let ?tail = "?nl0 @ CHR ''}'' # rest"
    have enc: "iterencode ind lvl (JObj kvs) = CHR ''{'' # ?nl1 @ ?J @ ?nl0 @ ''}''"
      using False sep by simp
    have sk: "skip_ws (ws @ iterencode ind lvl (JObj kvs) @ rest) = CHR ''{'' # (?nl1 @ ?J @ ?tail)"
      using skip_ws_Cons [OF open_ws 6(4)] enc by simp
    have ls: "map ?item kvs \<noteq> []" "hd (map ?item kvs) \<noteq> []" "hd (hd (map ?item kvs)) = DQ"
      using False by (simp_all add: hd_map encode_basestring_ascii_def)
    then have nws: "\<not> is_ws (hd (hd (map ?item kvs)))" by (simp add: not_ws)
    have inner: "skip_ws (?nl1 @ ?J @ ?tail) = DQ # tl (?J @ ?tail)"
      using skip_ws_joined [where ws = ?nl1 and sep = "CHR '','' # ws1" and tail = ?tail,
          OF ls(1,2) nws ws_newline_indent]
        ls(3) by simp
    have len: "length ?J < m" using 6(3) n enc by simp
    have ih: "\<And>kv n ws rest. kv \<in> set kvs \<Longrightarrow> length (?enc (snd kv)) \<le> n \<Longrightarrow> list_all is_ws ws
                \<Longrightarrow> delimited rest \<Longrightarrow> parse_value n (ws @ ?enc (snd kv) @ rest) = Some (snd kv, rest)"
      using 6(1) [OF False] 6(2) by (simp add: list_all_iff)
    have "parse_members m (?nl1 @ ?J @ ?tail) = Some (kvs, rest)"
      using parse_members_joined [where enc = ?enc, OF ih False len ws_newline_indent ws_newline_indent ws1]
      by simp
    moreover have "dict_of kvs = kvs" using 6(2) by (simp add: dict_of_distinct)
    ultimately show ?thesis
      using n parse_value_step [OF sk, of m] inner by simp
  qed
qed

lemma json_loads_dumps: "wf_json v \<Longrightarrow> json_loads (json_dumps ind v) = Some v"
  using parse_value_encoded [of v ind 0 "length (iterencode ind 0 v)" "[]" "[]"]
  by (simp add: json_loads_def json_dumps_def delimited_def skip_ws_def)

lemma dumps_tag2: "json_dumps (Some 4) (JArr [tag2]) = tag2_json []"
  by (simp add: json_dumps_def tag2_def tag2_json_def quoted_def newline_indent_def
      item_separator_def encode_basestring_ascii_def escape_ascii_def eval_nat_numeral)

lemma save_to_json_text:
  "can_open e filename \<Longrightarrow>
   save_to_json e data filename w
     = (None, w\<lparr>files := (files w)(filename \<mapsto> json_dumps (Some 4) data)\<rparr>)"
  by (simp add: save_to_json_def with_open_def write_result_def)

section \<open>Missing fields in the three formats\<close>

text \<open>
  C2, as the code has it. On a result set of records, whose context may lack any of its
  fields, none of the three formatters raises. For a missing field \<^verbatim>\<open>save_to_csv\<close>
  writes an empty cell and \<^verbatim>\<open>save_to_txt\<close> writes \<^verbatim>\<open>None\<close>;
  \<^verbatim>\<open>save_to_json\<close> writes the records as they are, so that reading the file back
  gives records that lack the field as before.
\<close>

theorem formatters_missing_fields:
  assumes "can_open e filename" and "list_all is_record recs"
  shows "save_to_csv e (JArr recs) filename w
           = (None, w\<lparr>files := (files w)(filename \<mapsto>
                        concat (map terminated (header_line # map csv_line recs)))\<rparr>)
         \<and> save_to_txt e (JArr recs) filename w
           = (None, w\<lparr>files := (files w)(filename \<mapsto>
                        concat (map (\<lambda>item. txt_block item @ [LF]) recs))\<rparr>)
         \<and> save_to_json e (JArr recs) filename w
           = (None, w\<lparr>files := (files w)(filename \<mapsto> json_dumps (Some 4) (JArr recs))\<rparr>)
         \<and> (wf_json (JArr recs) \<longrightarrow> json_loads (json_dumps (Some 4) (JArr recs)) = Some (JArr recs))
         \<and> (\<forall>item\<in>set recs. \<forall>k. \<not> has_key (lookup_or_none item ''tagContext'') k \<longrightarrow>
               csv_cell (lookup_or_none (lookup_or_none item ''tagContext'') k) = []
               \<and> py_str (lookup_or_none (lookup_or_none item ''tagContext'') k) = ''None'')"
proof -
  have "csv_cell (lookup_or_none c k) = [] \<and> py_str (lookup_or_none c k) = ''None''"
    if "\<not> has_key c k" for c k
    using that
    by (cases c) (simp_all add: csv_cell_def csv_field_text_def csv_join_append_def py_str_def)
  then show ?thesis
    using save_to_csv_records [OF assms] save_to_txt_records [OF assms]
      save_to_json_text [OF assms(1)] json_loads_dumps [of "JArr recs" "Some 4"]
    by simp
qed

theorem formatters_missing_fields_witness:
  "save_to_csv offline (JArr [tag2]) ''out'' fresh
     = (None, fresh\<lparr>files := (files fresh)(''out'' \<mapsto>
          ''tagName,historianItemId,sourceItemId,oldestTimeStamp,latestTimeStamp'' @ [CR, LF]
          @ ''Tag2.PV,h2,,2024-02-01T00:00:00,2024-06-30T12:00:00'' @ [CR, LF])\<rparr>)
   \<and> save_to_txt offline (JArr [tag2]) ''out'' fresh
     = (None, fresh\<lparr>files := (files fresh)(''out'' \<mapsto> tag2_txt ''None'')\<rparr>)
   \<and> save_to_json offline (JArr [tag2]) ''out'' fresh
     = (None, fresh\<lparr>files := (files fresh)(''out'' \<mapsto> tag2_json [])\<rparr>)
   \<and> json_loads (tag2_json []) = Some (JArr [tag2])
   \<and> csv_cell (lookup_or_none (lookup_or_none tag2 ''tagContext'') ''sourceItemId'') = []
   \<and> py_str (lookup_or_none (lookup_or_none tag2 ''tagContext'') ''sourceItemId'') = ''None''"
proof -
  have o: "can_open offline ''out''" by (simp add: offline_def)
  have r: "list_all is_record [tag2]" by (simp add: sample_records)
  have w: "wf_json (JArr [tag2])" by (simp add: tag2_def)
  have m: "\<not> has_key (lookup_or_none tag2 ''tagContext'') ''sourceItemId''" by (simp add: tag2_def)
  show ?thesis
    using formatters_missing_fields [OF o r, of fresh] w m
    by (simp add: sample_lines sample_blocks header_line_def terminated_def tag2_txt_def dumps_tag2)
qed

text \<open>
  For the record without \<^verbatim>\<open>sourceItemId\<close> the text file has
  \<^verbatim>\<open>SourceItemId: None\<close>, which is neither the empty string nor \<^verbatim>\<open>null\<close>, and the
  JSON file has no line for the field, neither with \<^verbatim>\<open>null\<close> nor with the empty
  string.
\<close>

theorem missing_field_not_empty:
  "save_to_txt offline (JArr [tag2]) ''out.txt'' fresh
     = (None, fresh\<lparr>files := (files fresh)(''out.txt'' \<mapsto> tag2_txt ''None'')\<rparr>)
   \<and> tag2_txt ''None'' \<noteq> tag2_txt ''''
   \<and> tag2_txt ''None'' \<noteq> tag2_txt ''null''
   \<and> save_to_json offline (JArr [tag2]) ''out.json'' fresh
     = (None, fresh\<lparr>files := (files fresh)(''out.json'' \<mapsto> tag2_json [])\<rparr>)
   \<and> tag2_json [] \<noteq> tag2_json [''            '' @ quoted ''sourceItemId'' @ '': null,'']
   \<and> tag2_json [] \<noteq> tag2_json [''            '' @ quoted ''sourceItemId'' @ '': '' @ quoted '''' @ '','']"
proof -
  have o: "can_open offline ''out.txt''" "can_open offline ''out.json''" by (simp_all add: offline_def)
  have "save_to_txt offline (JArr [tag2]) ''out.txt'' fresh
     = (None, fresh\<lparr>files := (files fresh)(''out.txt'' \<mapsto> tag2_txt ''None'')\<rparr>)"
    using save_to_txt_records [OF o(1), of "[tag2]" fresh]
    by (simp add: sample_records sample_blocks tag2_txt_def)
  moreover have "save_to_json offline (JArr [tag2]) ''out.json'' fresh
     = (None, fresh\<lparr>files := (files fresh)(''out.json'' \<mapsto> tag2_json [])\<rparr>)"
    using save_to_json_text [OF o(2), of "JArr [tag2]" fresh] by (simp add: dumps_tag2)
  moreover have "tag2_txt ''None'' \<noteq> tag2_txt ''''" "tag2_txt ''None'' \<noteq> tag2_txt ''null''"
    by (simp_all add: tag2_txt_def)
  moreover have "tag2_json [] \<noteq> tag2_json [''            '' @ quoted ''sourceItemId'' @ '': null,'']"
    "tag2_json [] \<noteq> tag2_json [''            '' @ quoted ''sourceItemId'' @ '': '' @ quoted '''' @ '','']"
    by (simp_all add: tag2_json_def quoted_def)
  ultimately show ?thesis by blast
qed

end
